theory Spec2Isabelle
  imports Main "HOL-Library.Sublist" "HOL-Library.Multiset"
begin

section \<open>The modmail relay engine (src/main.js)\<close>

text \<open>
  main.js registers the gateway event handlers and the staff commands of the bot. Every
  handler is an \<^verbatim>\<open>async\<close> function that reads from the collaborating modules
  (\<^verbatim>\<open>threads\<close>, \<^verbatim>\<open>blocked\<close>, \<^verbatim>\<open>utils\<close>, \<^verbatim>\<open>config\<close>) and calls methods on them.
  The embedding gives each handler as a function from the values its reads return (the
  environment) and the event to the way the handler ends and the sequence of collaborator
  calls it issues, in program order. A call to a collaborator is recorded where the handler
  issues it; its promise is taken to resolve, and a collaborator is taken to leave the
  objects handed to it unchanged. Events carry full message objects.
\<close>

subsection \<open>JavaScript strings\<close>

text \<open>A JavaScript string is a sequence of UTF-16 code units; a code unit is kept as its number.\<close>

type_synonym jsstring = "nat list"

definition str :: "string \<Rightarrow> jsstring" where
  "str s = map of_char s"

text \<open>
  \<^verbatim>\<open>String.prototype.trim\<close> removes the leading and trailing WhiteSpace and
  LineTerminator code points: TAB, LF, VT, FF, CR, SP, NBSP, the other space separators,
  LS, PS and the byte order mark.
\<close>

definition isWhiteSpace :: "nat \<Rightarrow> bool" where
  "isWhiteSpace c \<longleftrightarrow>
     c \<in> {9, 10, 11, 12, 13, 32, 160, 5760, 8232, 8233, 8239, 8287, 12288, 65279}
     \<or> (8192 \<le> c \<and> c \<le> 8202)"

definition trim :: "jsstring \<Rightarrow> jsstring" where
  "trim s = rev (dropWhile isWhiteSpace (rev (dropWhile isWhiteSpace s)))"

text \<open>\<^verbatim>\<open>Array.prototype.join\<close> of an array of strings.\<close>

fun join :: "jsstring \<Rightarrow> jsstring list \<Rightarrow> jsstring" where
  "join sep [] = []"
| "join sep [x] = x"
| "join sep (x # y # ys) = x @ sep @ join sep (y # ys)"

text \<open>
  \<^verbatim>\<open>String.prototype.split\<close> at a separator of one code unit: the pieces
  between its occurrences, the empty ones too.
\<close>

fun split :: "nat \<Rightarrow> jsstring \<Rightarrow> jsstring list" where
  "split sep [] = [[]]"
| "split sep (c # cs) =
     (if c = sep then [] # split sep cs
      else (case split sep cs of
              [] \<Rightarrow> [[c]]
            | p # ps \<Rightarrow> (c # p) # ps))"

subsection \<open>Data\<close>

type_synonym snowflake = jsstring

record user =
  u_id :: snowflake
  u_bot :: bool

record member =
  m_id :: snowflake
  m_roles :: "snowflake list"

text \<open>\<open>ch_private\<close> is \<^verbatim>\<open>channel instanceof Eris.PrivateChannel\<close>.\<close>

record channel =
  ch_id :: snowflake
  ch_private :: bool

type_synonym attachment = jsstring

record message =
  msg_id :: snowflake
  msg_author :: user
  msg_member :: "member option"
  msg_channel :: channel
  msg_content :: jsstring
  msg_type :: nat
  msg_attachments :: "attachment list"

text \<open>The second argument of a \<^verbatim>\<open>messageUpdate\<close> event; its content is null after a restart.\<close>

record old_message =
  old_content :: "jsstring option"

datatype thread_status = OPEN | CLOSED

record thread =
  thread_id :: nat
  user_id :: snowflake
  channel_id :: snowflake
  status :: thread_status
  created_at :: nat
  closed_at :: "nat option"

record config =
  cfg_prefix :: jsstring
  cfg_snippetPrefix :: jsstring
  cfg_alwaysReply :: bool
  cfg_alwaysReplyAnon :: "bool option"

text \<open>
  The only closure main.js hands to \<^verbatim>\<open>messageQueue.add\<close> is the one of the direct
  message handler; it captures the message.
\<close>

datatype task = DmTask message

text \<open>
  The calls a handler issues on its collaborators. The first group reads; the second group
  acts on the store, the queue or the chat platform.
\<close>

datatype call =
    IsBlocked snowflake
  | FindByChannelId snowflake
  | FindOpenThreadByChannelId snowflake
  | FindOpenThreadByUserId snowflake
  | GetClosedThreadsByUserId snowflake
  | GetLogUrl thread
  | SaveAttachmentsInMessage message
  | ReplyToUser thread "member option" jsstring "attachment list" bool
  | DeleteMessage message
  | SaveChatMessage thread message
  | QueueAdd task
  | FindOrCreateThreadForUser user
  | ReceiveUserReply thread message
  | PostSystemMessage thread jsstring
  | UpdateChatMessage thread message
  | DeleteChatMessage thread snowflake
  | Block snowflake
  | Unblock snowflake
  | CreateMessage channel jsstring

fun is_query :: "call \<Rightarrow> bool" where
  "is_query (IsBlocked _) = True"
| "is_query (FindByChannelId _) = True"
| "is_query (FindOpenThreadByChannelId _) = True"
| "is_query (FindOpenThreadByUserId _) = True"
| "is_query (GetClosedThreadsByUserId _) = True"
| "is_query (GetLogUrl _) = True"
| "is_query _ = False"

definition effects :: "call list \<Rightarrow> call list" where
  "effects cs = filter (\<lambda>c. \<not> is_query c) cs"

datatype js_error = TypeError

datatype outcome = Returned | Threw js_error

type_synonym result = "outcome \<times> call list"

text \<open>
  What the handlers read. The modules behind these fields are not part of main.js: the
  synchronous helpers of \<^verbatim>\<open>utils\<close> and \<^verbatim>\<open>moment\<close>, and the values the awaited
  lookups of \<^verbatim>\<open>threads\<close> and \<^verbatim>\<open>blocked\<close> resolve to.
\<close>

record env =
  config :: config
  messageIsOnInboxServer :: "message \<Rightarrow> bool"
  isStaff :: "member option \<Rightarrow> bool"
  getUserMention :: "jsstring \<Rightarrow> snowflake option"
  disableLinkPreviews :: "jsstring \<Rightarrow> jsstring"
  chunk :: "jsstring list \<Rightarrow> nat \<Rightarrow> jsstring list list"
  formatDate :: "nat \<Rightarrow> jsstring"
  isBlocked :: "snowflake \<Rightarrow> bool"
  findByChannelId :: "snowflake \<Rightarrow> thread option"
  findOpenThreadByChannelId :: "snowflake \<Rightarrow> thread option"
  findOpenThreadByUserId :: "snowflake \<Rightarrow> thread option"
  findOrCreateThreadForUser :: "user \<Rightarrow> thread"
  getClosedThreadsByUserId :: "snowflake \<Rightarrow> thread list"
  getLogUrl :: "thread \<Rightarrow> jsstring"

text \<open>The calls issued so far, put in front of the rest of the handler.\<close>

definition after :: "call list \<Rightarrow> result \<Rightarrow> result" where
  "after cs r = (fst r, cs @ snd r)"

subsection \<open>Handlers\<close>

text \<open>main.js 31-49: a moderator posts in a modmail thread.\<close>

definition staffMessageCreate :: "env \<Rightarrow> message \<Rightarrow> result" where
  "staffMessageCreate e msg =
     (if \<not> messageIsOnInboxServer e msg then (Returned, [])
      else if \<not> isStaff e (msg_member msg) then (Returned, [])
      else if u_bot (msg_author msg) then (Returned, [])
      else if prefix (cfg_prefix (config e)) (msg_content msg)
              \<or> prefix (cfg_snippetPrefix (config e)) (msg_content msg) then (Returned, [])
      else after [FindByChannelId (ch_id (msg_channel msg))]
        (case findByChannelId e (ch_id (msg_channel msg)) of
           None \<Rightarrow> (Returned, [])
         | Some thread \<Rightarrow>
             if cfg_alwaysReply (config e) then
               (Returned,
                 (if msg_attachments msg \<noteq> [] then [SaveAttachmentsInMessage msg] else [])
                 @ [ReplyToUser thread (msg_member msg) (trim (msg_content msg))
                      (msg_attachments msg)
                      (case cfg_alwaysReplyAnon (config e) of None \<Rightarrow> False | Some b \<Rightarrow> b),
                    DeleteMessage msg])
             else (Returned, [SaveChatMessage thread msg])))"

text \<open>main.js 64-67: the queued closure of the direct message handler.\<close>

definition dmTask :: "env \<Rightarrow> message \<Rightarrow> result" where
  "dmTask e msg =
     (Returned,
       [FindOrCreateThreadForUser (msg_author msg),
        ReceiveUserReply (findOrCreateThreadForUser e (msg_author msg)) msg])"

fun runTask :: "env \<Rightarrow> task \<Rightarrow> result" where
  "runTask e (DmTask msg) = dmTask e msg"

text \<open>main.js 56-68: a private message arrives.\<close>

definition dmMessageCreate :: "env \<Rightarrow> message \<Rightarrow> result" where
  "dmMessageCreate e msg =
     (if \<not> ch_private (msg_channel msg) then (Returned, [])
      else if u_bot (msg_author msg) then (Returned, [])
      else if msg_type msg \<noteq> 0 then (Returned, [])
      else after [IsBlocked (u_id (msg_author msg))]
        (if isBlocked e (u_id (msg_author msg)) then (Returned, [])
         else (Returned, [QueueAdd (DmTask msg)])))"

definition unavailable :: jsstring where
  "unavailable = str ''*Unavailable due to bot restart*''"

definition editMessage :: "jsstring \<Rightarrow> jsstring \<Rightarrow> jsstring" where
  "editMessage oldContent newContent =
     str ''**The user edited their message:**'' @ [10] @ str ''`B:` '' @ oldContent
       @ [10] @ str ''`A:` '' @ newContent"

text \<open>main.js 79-83: the old content, or the placeholder when it is null.\<close>

definition oldContentOf :: "old_message \<Rightarrow> jsstring" where
  "oldContentOf oldMessage =
     (case old_content oldMessage of None \<Rightarrow> unavailable | Some c \<Rightarrow> c)"

text \<open>
  main.js 75-103: a message is edited. In the private branch the thread found is used
  without a test, so a missing one ends the handler with a TypeError at the method call.
\<close>

definition messageUpdate :: "env \<Rightarrow> message \<Rightarrow> old_message \<Rightarrow> result" where
  "messageUpdate e msg oldMessage =
     (if u_bot (msg_author msg) then (Returned, [])
      else after [IsBlocked (u_id (msg_author msg))]
        (if isBlocked e (u_id (msg_author msg)) then (Returned, [])
         else
           let oldContent = oldContentOf oldMessage;
               newContent = msg_content msg
           in if trim newContent = trim oldContent then (Returned, [])
              else if ch_private (msg_channel msg) then
                after [FindOpenThreadByUserId (u_id (msg_author msg))]
                  (case findOpenThreadByUserId e (u_id (msg_author msg)) of
                     None \<Rightarrow> (Threw TypeError, [])
                   | Some thread \<Rightarrow>
                       (Returned,
                         [PostSystemMessage thread
                            (disableLinkPreviews e (editMessage oldContent newContent))]))
              else if messageIsOnInboxServer e msg \<and> isStaff e (msg_member msg) then
                after [FindOpenThreadByChannelId (ch_id (msg_channel msg))]
                  (case findOpenThreadByChannelId e (ch_id (msg_channel msg)) of
                     None \<Rightarrow> (Returned, [])
                   | Some thread \<Rightarrow> (Returned, [UpdateChatMessage thread msg]))
              else (Returned, [])))"

text \<open>main.js 108-117: a message is deleted.\<close>

definition messageDelete :: "env \<Rightarrow> message \<Rightarrow> result" where
  "messageDelete e msg =
     (if u_bot (msg_author msg) then (Returned, [])
      else if \<not> messageIsOnInboxServer e msg then (Returned, [])
      else if \<not> isStaff e (msg_member msg) then (Returned, [])
      else after [FindOpenThreadByChannelId (ch_id (msg_channel msg))]
        (case findOpenThreadByChannelId e (ch_id (msg_channel msg)) of
           None \<Rightarrow> (Returned, [])
         | Some thread \<Rightarrow> (Returned, [DeleteChatMessage thread (msg_id msg)])))"

subsection \<open>Commands\<close>

text \<open>
  A command handler receives the invoking message, the argument tokens and the thread of
  the invoking channel, or null. \<^verbatim>\<open>getUserMention\<close> gives a string or null; the test
  \<^verbatim>\<open>! userId\<close> holds for null and for the empty string.
\<close>

definition blockedText :: "snowflake \<Rightarrow> jsstring" where
  "blockedText userId =
     str ''Blocked <@'' @ userId @ str ''> (id '' @ userId @ str '') from modmail''"

definition unblockedText :: "snowflake \<Rightarrow> jsstring" where
  "unblockedText userId =
     str ''Unblocked <@'' @ userId @ str ''> (id '' @ userId @ str '') from modmail''"

definition block :: "message \<Rightarrow> snowflake \<Rightarrow> result" where
  "block msg userId = (Returned, [Block userId, CreateMessage (msg_channel msg) (blockedText userId)])"

definition unblock :: "message \<Rightarrow> snowflake \<Rightarrow> result" where
  "unblock msg userId =
     (Returned, [Unblock userId, CreateMessage (msg_channel msg) (unblockedText userId)])"

text \<open>main.js 169-184.\<close>

definition blockCommand :: "env \<Rightarrow> message \<Rightarrow> jsstring list \<Rightarrow> thread option \<Rightarrow> result" where
  "blockCommand e msg args thread =
     (if length args > 0 then
        (case getUserMention e (join (str '' '') args) of
           None \<Rightarrow> (Returned, [])
         | Some userId \<Rightarrow> if userId = [] then (Returned, []) else block msg userId)
      else (case thread of
              Some t \<Rightarrow> block msg (user_id t)
            | None \<Rightarrow> (Returned, [])))"

text \<open>main.js 186-201.\<close>

definition unblockCommand :: "env \<Rightarrow> message \<Rightarrow> jsstring list \<Rightarrow> thread option \<Rightarrow> result" where
  "unblockCommand e msg args thread =
     (if length args > 0 then
        (case getUserMention e (join (str '' '') args) of
           None \<Rightarrow> (Returned, [])
         | Some userId \<Rightarrow> if userId = [] then (Returned, []) else unblock msg userId)
      else (case thread of
              Some t \<Rightarrow> unblock msg (user_id t)
            | None \<Rightarrow> (Returned, [])))"

text \<open>main.js 204-224: the listing of a user's log files.\<close>

definition threadLine :: "env \<Rightarrow> thread \<Rightarrow> jsstring" where
  "threadLine e t = str ''`'' @ formatDate e (created_at t) @ str ''`: <'' @ getLogUrl e t @ str ''>''"

definition logsMessage :: "snowflake \<Rightarrow> jsstring list \<Rightarrow> jsstring" where
  "logsMessage userId threadLines =
     str ''**Log files for <@'' @ userId @ str ''>:**'' @ [10] @ join [10] threadLines"

definition getLogs :: "env \<Rightarrow> message \<Rightarrow> snowflake \<Rightarrow> result" where
  "getLogs e msg userId =
     (let userThreads = rev (getClosedThreadsByUserId e userId);
          threadLines = map (threadLine e) userThreads;
          lines = split 10 (logsMessage userId threadLines);
          chunks = chunk e lines 15
      in (Returned,
           [GetClosedThreadsByUserId userId]
           @ map GetLogUrl userThreads
           @ map (\<lambda>ls. CreateMessage (msg_channel msg) (join [10] ls)) chunks))"

text \<open>main.js 203-235.\<close>

definition logsCommand :: "env \<Rightarrow> message \<Rightarrow> jsstring list \<Rightarrow> thread option \<Rightarrow> result" where
  "logsCommand e msg args thread =
     (if length args > 0 then
        (case getUserMention e (join (str '' '') args) of
           None \<Rightarrow> (Returned, [])
         | Some userId \<Rightarrow> if userId = [] then (Returned, []) else getLogs e msg userId)
      else (case thread of
              Some t \<Rightarrow> getLogs e msg (user_id t)
            | None \<Rightarrow> (Returned, [])))"


section \<open>The store, the thread registry, the blocklist and the queue\<close>

text \<open>
  The modules main.js calls into (\<^verbatim>\<open>data/threads\<close>, \<^verbatim>\<open>data/blocked\<close>, \<^verbatim>\<open>queue\<close>, the
  methods of a thread object) are not among the sources. Where a property depends on what
  they do, they are modelled from the specification, over a store of the three tables and
  of what the process holds in memory: the pending tasks of the queue, the task the queue is
  running, and the handlers that are suspended on an awaited lookup.
\<close>

datatype direction = TO_USER | FROM_USER | STAFF_CHAT | SYSTEM

record chat_message =
  cm_id :: nat
  cm_thread_id :: nat
  external_message_id :: "snowflake option"
  direction :: direction
  author_id :: snowflake
  content :: jsstring
  attachment_refs :: "attachment list"
  cm_created_at :: nat
  deleted :: bool
  anonymous :: bool

text \<open>
  Where the task that the queue is running stands. The closure of main.js 64-67 awaits
  \<^verbatim>\<open>findOrCreateThreadForUser\<close> and then \<^verbatim>\<open>receiveUserReply\<close>. By sections 4.2 and 5 of
  the specification the first is not one step: it looks for the OPEN thread of the user,
  and when there is none it creates the channel and only then persists the thread, with
  other handlers free to run in between.
\<close>

datatype progress =
    Calling task
  | Creating task user
  | Resolved task thread

text \<open>
  The blocklist holds the BlockedUser rows: user id and time of blocking. \<open>suspended\<close>
  holds the direct messages whose handler stands at the awaited blocklist lookup of
  main.js 61.
\<close>

record store =
  threads :: "thread list"
  chat_messages :: "chat_message list"
  blocklist :: "(snowflake \<times> nat) list"
  queue :: "task list"
  running :: "progress option"
  suspended :: "message list"

text \<open>
  What the outside supplies to a step: the time, the id the chat platform gives to a channel
  it creates, and the id of the bot's own user.
\<close>

record world =
  now :: nat
  new_channel :: snowflake
  bot_id :: snowflake

text \<open>
  Modelled from the spec: \<^verbatim>\<open>blocked.isBlocked\<close> is missing; section 4.4 gives
  \<^verbatim>\<open>is_blocked(user_id)\<close> as a set-membership check.
\<close>

definition is_blocked :: "store \<Rightarrow> snowflake \<Rightarrow> bool" where
  "is_blocked st uid \<longleftrightarrow> uid \<in> fst ` set (blocklist st)"

text \<open>
  Modelled from the spec: \<^verbatim>\<open>blocked.block\<close> is missing; section 4.4 gives an idempotent
  set insert.
\<close>

definition block_user :: "world \<Rightarrow> snowflake \<Rightarrow> store \<Rightarrow> store" where
  "block_user w uid st =
     (if is_blocked st uid then st else st\<lparr>blocklist := blocklist st @ [(uid, now w)]\<rparr>)"

text \<open>
  Modelled from the spec: \<^verbatim>\<open>blocked.unblock\<close> is missing; section 4.4 gives an idempotent
  set remove.
\<close>

definition unblock_user :: "snowflake \<Rightarrow> store \<Rightarrow> store" where
  "unblock_user uid st = st\<lparr>blocklist := filter (\<lambda>b. fst b \<noteq> uid) (blocklist st)\<rparr>"

text \<open>
  Modelled from the spec: \<^verbatim>\<open>threads.findOpenThreadByUserId\<close> is missing; section 4.2 gives
  \<^verbatim>\<open>find_open_thread_by_user(user_id)\<close>, an exact lookup of the OPEN thread of a user.
\<close>

definition find_open_thread_by_user :: "store \<Rightarrow> snowflake \<Rightarrow> thread option" where
  "find_open_thread_by_user st uid =
     find (\<lambda>t. user_id t = uid \<and> status t = OPEN) (threads st)"

text \<open>
  Modelled from the spec: \<^verbatim>\<open>threads.findOpenThreadByChannelId\<close> is missing; section 4.2
  gives \<^verbatim>\<open>find_open_thread_by_channel(channel_id)\<close>.
\<close>

definition find_open_thread_by_channel :: "store \<Rightarrow> snowflake \<Rightarrow> thread option" where
  "find_open_thread_by_channel st cid =
     find (\<lambda>t. channel_id t = cid \<and> status t = OPEN) (threads st)"

definition new_thread :: "world \<Rightarrow> user \<Rightarrow> store \<Rightarrow> thread" where
  "new_thread w u st = \<lparr>thread_id = length (threads st), user_id = u_id u,
     channel_id = new_channel w, status = OPEN, created_at = now w, closed_at = None\<rparr>"

text \<open>
  Modelled from the spec: \<^verbatim>\<open>threads.findOrCreateThreadForUser\<close> is missing; section 4.2:
  it returns the existing OPEN thread of the user if present; otherwise it creates a new
  external channel, persists a new OPEN thread and returns it.
\<close>

definition find_or_create_thread_for_user :: "world \<Rightarrow> user \<Rightarrow> store \<Rightarrow> thread \<times> store" where
  "find_or_create_thread_for_user w u st =
     (case find_open_thread_by_user st (u_id u) of
        Some t \<Rightarrow> (t, st)
      | None \<Rightarrow> (new_thread w u st, st\<lparr>threads := threads st @ [new_thread w u st]\<rparr>))"

text \<open>
  Modelled from the spec: \<^verbatim>\<open>threads.getClosedThreadsByUserId\<close> is missing; section 4.2
  gives \<^verbatim>\<open>get_closed_threads_by_user(user_id)\<close>, the sequence of the user's CLOSED threads
  in ascending creation order.
\<close>

definition get_closed_threads_by_user :: "store \<Rightarrow> snowflake \<Rightarrow> thread list" where
  "get_closed_threads_by_user st uid =
     sort_key created_at (filter (\<lambda>t. user_id t = uid \<and> status t = CLOSED) (threads st))"

text \<open>
  Modelled from the spec: the \<^verbatim>\<open>Queue\<close> class is missing; section 4.1: \<^verbatim>\<open>enqueue(task)\<close>
  appends the task and returns; the queue runs one task at a time in FIFO order.
\<close>

definition enqueue :: "task \<Rightarrow> store \<Rightarrow> store" where
  "enqueue t st = st\<lparr>queue := queue st @ [t]\<rparr>"

text \<open>
  Modelled from the spec: the methods of a thread object that log a message are missing;
  section 3 gives the row of a ChatMessage, created on every relay and log event.
\<close>

definition add_chat_message ::
  "world \<Rightarrow> thread \<Rightarrow> direction \<Rightarrow> snowflake option \<Rightarrow> snowflake \<Rightarrow> jsstring
     \<Rightarrow> attachment list \<Rightarrow> bool \<Rightarrow> store \<Rightarrow> store" where
  "add_chat_message w t d ext author text atts anon st =
     st\<lparr>chat_messages := chat_messages st @
        [\<lparr>cm_id = length (chat_messages st), cm_thread_id = thread_id t,
          external_message_id = ext, direction = d, author_id = author, content = text,
          attachment_refs = atts, cm_created_at = now w, deleted = False, anonymous = anon\<rparr>]\<rparr>"

text \<open>
  Modelled from the spec: \<^verbatim>\<open>thread.updateChatMessage\<close> is missing; section 4.3: locate the
  ChatMessage by external_message_id and update its content in place.
\<close>

definition update_chat_message :: "thread \<Rightarrow> message \<Rightarrow> store \<Rightarrow> store" where
  "update_chat_message t msg st =
     st\<lparr>chat_messages :=
        map (\<lambda>m. if cm_thread_id m = thread_id t \<and> external_message_id m = Some (msg_id msg)
                 then m\<lparr>content := msg_content msg\<rparr> else m) (chat_messages st)\<rparr>"

text \<open>
  Modelled from the spec: \<^verbatim>\<open>thread.deleteChatMessage\<close> is missing; section 4.3: soft-delete
  the matching ChatMessage (content retained, deleted = true).
\<close>

definition delete_chat_message :: "thread \<Rightarrow> snowflake \<Rightarrow> store \<Rightarrow> store" where
  "delete_chat_message t mid st =
     st\<lparr>chat_messages :=
        map (\<lambda>m. if cm_thread_id m = thread_id t \<and> external_message_id m = Some mid
                 then m\<lparr>deleted := True\<rparr> else m) (chat_messages st)\<rparr>"

text \<open>
  Modelled from the spec: the effect of each collaborator call on the store, by the rows of
  the table of section 4.3 (\<^verbatim>\<open>replyToUser\<close> persists a TO_USER message,
  \<^verbatim>\<open>saveChatMessage\<close> a STAFF_CHAT one, \<^verbatim>\<open>receiveUserReply\<close> a FROM_USER one,
  \<^verbatim>\<open>postSystemMessage\<close> a SYSTEM one). The lookups and the calls on the chat platform
  (deleting a message, sending one, capturing attachments) leave the store as it is.
\<close>

fun apply_call :: "world \<Rightarrow> call \<Rightarrow> store \<Rightarrow> store" where
  "apply_call w (QueueAdd t) st = enqueue t st"
| "apply_call w (FindOrCreateThreadForUser u) st = snd (find_or_create_thread_for_user w u st)"
| "apply_call w (ReceiveUserReply t msg) st =
     add_chat_message w t FROM_USER (Some (msg_id msg)) (u_id (msg_author msg))
       (msg_content msg) (msg_attachments msg) False st"
| "apply_call w (ReplyToUser t m text atts anon) st =
     add_chat_message w t TO_USER None (case m of None \<Rightarrow> [] | Some x \<Rightarrow> m_id x) text atts anon st"
| "apply_call w (SaveChatMessage t msg) st =
     add_chat_message w t STAFF_CHAT (Some (msg_id msg)) (u_id (msg_author msg))
       (msg_content msg) (msg_attachments msg) False st"
| "apply_call w (PostSystemMessage t text) st =
     add_chat_message w t SYSTEM None (bot_id w) text [] False st"
| "apply_call w (UpdateChatMessage t msg) st = update_chat_message t msg st"
| "apply_call w (DeleteChatMessage t mid) st = delete_chat_message t mid st"
| "apply_call w (Block uid) st = block_user w uid st"
| "apply_call w (Unblock uid) st = unblock_user uid st"
| "apply_call w _ st = st"

definition exec :: "world \<Rightarrow> call list \<Rightarrow> store \<Rightarrow> store" where
  "exec w cs st = foldl (\<lambda>s c. apply_call w c s) st cs"

text \<open>The environment of a handler that runs on a store: the lookups read the store.\<close>

definition store_env :: "env \<Rightarrow> world \<Rightarrow> store \<Rightarrow> env" where
  "store_env e w st =
     e\<lparr>isBlocked := is_blocked st,
       findOpenThreadByChannelId := find_open_thread_by_channel st,
       findOpenThreadByUserId := find_open_thread_by_user st,
       findOrCreateThreadForUser := (\<lambda>u. fst (find_or_create_thread_for_user w u st)),
       getClosedThreadsByUserId := get_closed_threads_by_user st\<rparr>"

fun is_blocklist_check :: "call \<Rightarrow> bool" where
  "is_blocklist_check (IsBlocked _) = True"
| "is_blocklist_check _ = False"

subsection \<open>Events on the store\<close>

text \<open>
  Modelled from the spec: one move of the task that the queue is running. The lookup of
  \<^verbatim>\<open>findOrCreateThreadForUser\<close> answers (main.js 65, first half); or the channel has been
  created and the new thread is persisted (second half); or the thread is there and the
  message is handed to it (main.js 66), which ends the task.
\<close>

fun advance :: "world \<Rightarrow> progress \<Rightarrow> store \<Rightarrow> progress option \<times> store" where
  "advance w (Calling (DmTask msg)) st =
     (case find_open_thread_by_user st (u_id (msg_author msg)) of
        Some t \<Rightarrow> (Some (Resolved (DmTask msg) t), st)
      | None \<Rightarrow> (Some (Creating (DmTask msg) (msg_author msg)), st))"
| "advance w (Creating task u) st =
     (Some (Resolved task (new_thread w u st)), st\<lparr>threads := threads st @ [new_thread w u st]\<rparr>)"
| "advance w (Resolved (DmTask msg) t) st = (None, apply_call w (ReceiveUserReply t msg) st)"

text \<open>The moves of one task, made one after the other with nothing in between.\<close>

definition uninterrupted :: "world \<Rightarrow> task \<Rightarrow> store \<Rightarrow> store" where
  "uninterrupted w t st =
     (case advance w (Calling t) st of
        (None, s) \<Rightarrow> s
      | (Some p, s) \<Rightarrow>
          (case advance w p s of
             (None, s') \<Rightarrow> s'
           | (Some p', s') \<Rightarrow> snd (advance w p' s')))"

text \<open>
  The events. A direct message arrives: its handler runs up to the awaited blocklist lookup
  (main.js 57-61) and is suspended there, if it gets that far. The lookup of a suspended
  handler answers, whichever of them, and the handler runs on (main.js 61-67). The worker
  of the queue makes its next move: with no task running it takes the task at the head,
  otherwise the running task advances; the next task is taken only when the running one
  has ended (section 4.1). A moderator issues the block command; the thread handed to a
  command is the OPEN thread of the invoking channel (section 6).
\<close>

datatype event =
    DirectMessage message
  | Resume nat
  | QueueRun
  | BlockCommand message "jsstring list"

fun step :: "env \<Rightarrow> world \<times> event \<Rightarrow> store \<Rightarrow> store" where
  "step e (w, DirectMessage msg) st =
     (if list_ex is_blocklist_check (snd (dmMessageCreate (store_env e w st) msg))
      then st\<lparr>suspended := suspended st @ [msg]\<rparr> else st)"
| "step e (w, Resume i) st =
     (if i < length (suspended st)
      then exec w (snd (dmMessageCreate (store_env e w st) (suspended st ! i)))
             (st\<lparr>suspended := take i (suspended st) @ drop (Suc i) (suspended st)\<rparr>)
      else st)"
| "step e (w, QueueRun) st =
     (case running st of
        None \<Rightarrow> (case queue st of
                   [] \<Rightarrow> st
                 | t # ts \<Rightarrow> st\<lparr>queue := ts, running := Some (Calling t)\<rparr>)
      | Some p \<Rightarrow> (snd (advance w p st))\<lparr>running := fst (advance w p st)\<rparr>)"
| "step e (w, BlockCommand msg args) st =
     exec w (snd (blockCommand (store_env e w st) msg args
                    (find_open_thread_by_channel st (ch_id (msg_channel msg))))) st"

definition run :: "env \<Rightarrow> (world \<times> event) list \<Rightarrow> store \<Rightarrow> store" where
  "run e evs st = foldl (\<lambda>s ev. step e ev s) st evs"

definition open_threads_of :: "store \<Rightarrow> snowflake \<Rightarrow> thread list" where
  "open_threads_of st uid = filter (\<lambda>t. user_id t = uid \<and> status t = OPEN) (threads st)"

text \<open>
  A direct message of the given user that passes the guards of the handler; a message whose
  author has the id of the given user.
\<close>

definition first_dm :: "user \<Rightarrow> message \<Rightarrow> bool" where
  "first_dm u m \<longleftrightarrow> ch_private (msg_channel m) \<and> msg_author m = u \<and> msg_type m = 0"

definition mine :: "user \<Rightarrow> message \<Rightarrow> bool" where
  "mine u m \<longleftrightarrow> u_id (msg_author m) = u_id u"

fun dms_of :: "(world \<times> event) list \<Rightarrow> message list" where
  "dms_of [] = []"
| "dms_of ((w, DirectMessage m) # evs) = m # dms_of evs"
| "dms_of (_ # evs) = dms_of evs"

text \<open>
  The traffic of direct messages: messages of anyone arrive, lookups answer, the worker
  moves. Nobody is blocked or unblocked meanwhile.
\<close>

fun dm_traffic :: "world \<times> event \<Rightarrow> bool" where
  "dm_traffic (w, DirectMessage m) = True"
| "dm_traffic (w, Resume i) = True"
| "dm_traffic (w, QueueRun) = True"
| "dm_traffic (w, BlockCommand msg args) = False"

text \<open>The thread a logged message went to, and the platform message it logs.\<close>

definition resolved :: "chat_message \<Rightarrow> nat \<times> snowflake option" where
  "resolved c = (cm_thread_id c, external_message_id c)"

text \<open>The direct messages that are under way: suspended, queued, or being worked on.\<close>

fun task_msg :: "task \<Rightarrow> message" where
  "task_msg (DmTask m) = m"

fun progress_msg :: "progress \<Rightarrow> message" where
  "progress_msg (Calling t) = task_msg t"
| "progress_msg (Creating t u) = task_msg t"
| "progress_msg (Resolved t T) = task_msg t"

definition in_flight :: "store \<Rightarrow> message multiset" where
  "in_flight st =
     mset (suspended st) + mset (map task_msg (queue st))
     + (case running st of None \<Rightarrow> {#} | Some p \<Rightarrow> {#progress_msg p#})"

definition own :: "user \<Rightarrow> store \<Rightarrow> message multiset" where
  "own u st = filter_mset (mine u) (in_flight st)"

fun arrivals :: "user \<Rightarrow> world \<times> event \<Rightarrow> message multiset" where
  "arrivals u (w, DirectMessage m) = (if first_dm u m then {#m#} else {#})"
| "arrivals u _ = {#}"

text \<open>
  What holds of the store while the first messages of a user \<open>u\<close> are worked on among
  other traffic, from a store \<open>st0\<close> in which \<open>u\<close> has no OPEN thread. \<open>A\<close> are the
  messages of \<open>u\<close> that have arrived and passed the guards, \<open>To\<close> is the thread created
  for \<open>u\<close> so far, if any. Threads and logged messages have only been added; among the
  added threads the one of \<open>To\<close> is the only one of \<open>u\<close>; the messages of \<open>u\<close> logged so
  far, all on that thread, are the arrived ones that are no longer under way; a task that is
  creating a thread for \<open>u\<close> does so only while there is none, and a task of \<open>u\<close> that
  holds a thread holds that of \<open>To\<close>.
\<close>

definition one_thread_inv ::
  "user \<Rightarrow> store \<Rightarrow> message multiset \<Rightarrow> thread option \<Rightarrow> store \<Rightarrow> bool" where
  "one_thread_inv u st0 A To st \<longleftrightarrow>
     blocklist st = blocklist st0
     \<and> (\<forall>m\<in>#in_flight st. mine u m \<longrightarrow> first_dm u m)
     \<and> (\<exists>new news ms.
           threads st = threads st0 @ new
         \<and> filter (\<lambda>t. user_id t = u_id u) new = (case To of None \<Rightarrow> [] | Some T \<Rightarrow> [T])
         \<and> chat_messages st = chat_messages st0 @ news
         \<and> map resolved (filter (\<lambda>c. author_id c = u_id u) news)
             = map (\<lambda>m. (case To of None \<Rightarrow> 0 | Some T \<Rightarrow> thread_id T, Some (msg_id m))) ms
         \<and> (To = None \<longrightarrow> ms = [])
         \<and> mset ms + own u st = A)
     \<and> (\<forall>T. To = Some T \<longrightarrow> status T = OPEN)
     \<and> (case running st of
           None \<Rightarrow> True
         | Some (Calling t) \<Rightarrow> True
         | Some (Creating t v) \<Rightarrow>
             v = msg_author (task_msg t) \<and> (mine u (task_msg t) \<longrightarrow> To = None)
         | Some (Resolved t T') \<Rightarrow> mine u (task_msg t) \<longrightarrow> To = Some T')"

text \<open>The moves the worker still has to make to empty the queue.\<close>

definition work :: "store \<Rightarrow> nat" where
  "work st =
     4 * length (queue st)
     + (case running st of None \<Rightarrow> 0 | Some (Calling t) \<Rightarrow> 3 | Some (Creating t u) \<Rightarrow> 2
        | Some (Resolved t T) \<Rightarrow> 1)"


section \<open>Sample events\<close>

text \<open>Concrete events, environments and stores, on which the properties below are evaluated.\<close>

definition sampleConfig :: config where
  "sampleConfig = \<lparr>cfg_prefix = str ''!'', cfg_snippetPrefix = str ''!!'',
     cfg_alwaysReply = False, cfg_alwaysReplyAnon = None\<rparr>"

definition sampleUser :: user where
  "sampleUser = \<lparr>u_id = str ''7'', u_bot = False\<rparr>"

definition sampleStaff :: member where
  "sampleStaff = \<lparr>m_id = str ''9'', m_roles = [str ''1'']\<rparr>"

definition dmChannel :: channel where
  "dmChannel = \<lparr>ch_id = str ''70'', ch_private = True\<rparr>"

definition threadChannel :: channel where
  "threadChannel = \<lparr>ch_id = str ''80'', ch_private = False\<rparr>"

definition sampleThread :: thread where
  "sampleThread = \<lparr>thread_id = 1, user_id = str ''7'', channel_id = str ''80'', status = OPEN,
     created_at = 100, closed_at = None\<rparr>"

definition dmMessage :: message where
  "dmMessage = \<lparr>msg_id = str ''500'', msg_author = sampleUser, msg_member = None,
     msg_channel = dmChannel, msg_content = str ''hello'', msg_type = 0, msg_attachments = []\<rparr>"

definition staffMessage :: message where
  "staffMessage = \<lparr>msg_id = str ''600'', msg_author = \<lparr>u_id = str ''9'', u_bot = False\<rparr>,
     msg_member = Some sampleStaff, msg_channel = threadChannel, msg_content = str '' hi '',
     msg_type = 0, msg_attachments = [str ''http://a/b.png'']\<rparr>"

definition sampleEnv :: env where
  "sampleEnv = \<lparr>config = sampleConfig,
     messageIsOnInboxServer = (\<lambda>m. \<not> ch_private (msg_channel m)),
     isStaff = (\<lambda>m. m \<noteq> None),
     getUserMention = (\<lambda>s. if s \<noteq> [] \<and> list_all (\<lambda>c. 48 \<le> c \<and> c \<le> 57) s then Some s else None),
     disableLinkPreviews = (\<lambda>s. s),
     chunk = (\<lambda>ls n. [ls]),
     formatDate = (\<lambda>t. str ''Jan 1st at 00:00 UTC''),
     isBlocked = (\<lambda>u. False),
     findByChannelId = (\<lambda>c. if c = str ''80'' then Some sampleThread else None),
     findOpenThreadByChannelId = (\<lambda>c. if c = str ''80'' then Some sampleThread else None),
     findOpenThreadByUserId = (\<lambda>u. if u = str ''7'' then Some sampleThread else None),
     findOrCreateThreadForUser = (\<lambda>u. sampleThread),
     getClosedThreadsByUserId = (\<lambda>u. []),
     getLogUrl = (\<lambda>t. str ''http://logs/1'')\<rparr>"


definition blockedEnv :: env where
  "blockedEnv = sampleEnv\<lparr>isBlocked := (\<lambda>u. u = str ''9'')\<rparr>"

definition noThreadEnv :: env where
  "noThreadEnv = sampleEnv\<lparr>findOpenThreadByUserId := (\<lambda>u. None)\<rparr>"

definition replyEnv :: env where
  "replyEnv = sampleEnv\<lparr>config := sampleConfig\<lparr>cfg_alwaysReply := True\<rparr>\<rparr>"


definition emptyStore :: store where
  "emptyStore = \<lparr>threads = [], chat_messages = [], blocklist = [], queue = [],
     running = None, suspended = []\<rparr>"

definition sampleWorld :: world where
  "sampleWorld = \<lparr>now = 100, new_channel = str ''80'', bot_id = str ''1''\<rparr>"

definition dmMessage2 :: message where
  "dmMessage2 = dmMessage\<lparr>msg_id := str ''501'', msg_content := str ''b''\<rparr>"

definition botDmMessage :: message where
  "botDmMessage = dmMessage\<lparr>msg_author := \<lparr>u_id = str ''8'', u_bot = True\<rparr>\<rparr>"

definition closedThread :: "nat \<Rightarrow> nat \<Rightarrow> thread" where
  "closedThread i t = \<lparr>thread_id = i, user_id = str ''7'', channel_id = str ''90'',
     status = CLOSED, created_at = t, closed_at = Some (t + 1)\<rparr>"

definition logStore :: store where
  "logStore = emptyStore\<lparr>threads := [closedThread 0 300, sampleThread, closedThread 2 200]\<rparr>"

definition sampleMessages :: "chat_message list" where
  "sampleMessages =
     [\<lparr>cm_id = 0, cm_thread_id = 1, external_message_id = Some (str ''600''),
       direction = STAFF_CHAT, author_id = str ''9'', content = str ''hi'',
       attachment_refs = [], cm_created_at = 100, deleted = False, anonymous = False\<rparr>,
      \<lparr>cm_id = 1, cm_thread_id = 1, external_message_id = Some (str ''601''),
       direction = STAFF_CHAT, author_id = str ''9'', content = str ''ho'',
       attachment_refs = [], cm_created_at = 101, deleted = False, anonymous = False\<rparr>]"

text \<open>
  Two first messages of the same user: both arrive, the lookup of the second answers before
  that of the first, and the second arrives at the queue while the first task is creating
  its channel.
\<close>

definition dmSchedule :: "(world \<times> event) list" where
  "dmSchedule =
     [(sampleWorld, DirectMessage dmMessage), (sampleWorld, DirectMessage dmMessage2),
      (sampleWorld, Resume 1), (sampleWorld, QueueRun), (sampleWorld, QueueRun),
      (sampleWorld, Resume 0), (sampleWorld, QueueRun), (sampleWorld, QueueRun),
      (sampleWorld, QueueRun), (sampleWorld, QueueRun), (sampleWorld, QueueRun)]"

text \<open>The same with a message of another user and one of a bot arriving in between.\<close>

definition otherUser :: user where
  "otherUser = \<lparr>u_id = str ''6'', u_bot = False\<rparr>"

definition otherDmMessage :: message where
  "otherDmMessage = dmMessage\<lparr>msg_id := str ''502'', msg_author := otherUser\<rparr>"

definition mixedSchedule :: "(world \<times> event) list" where
  "mixedSchedule =
     [(sampleWorld, DirectMessage dmMessage), (sampleWorld, DirectMessage otherDmMessage),
      (sampleWorld, DirectMessage botDmMessage), (sampleWorld, DirectMessage dmMessage2),
      (sampleWorld, Resume 2), (sampleWorld, QueueRun), (sampleWorld, QueueRun),
      (sampleWorld, Resume 1), (sampleWorld, Resume 0),
      (sampleWorld, QueueRun), (sampleWorld, QueueRun), (sampleWorld, QueueRun),
      (sampleWorld, QueueRun), (sampleWorld, QueueRun), (sampleWorld, QueueRun),
      (sampleWorld, QueueRun), (sampleWorld, QueueRun), (sampleWorld, QueueRun)]"

definition blockSchedule :: "(world \<times> event) list" where
  "blockSchedule =
     [(sampleWorld, DirectMessage dmMessage), (sampleWorld, Resume 0),
      (sampleWorld, BlockCommand staffMessage [str ''7'']),
      (sampleWorld, QueueRun), (sampleWorld, QueueRun), (sampleWorld, QueueRun),
      (sampleWorld, QueueRun)]"

section \<open>Properties\<close>

subsection \<open>Auxiliary facts\<close>

lemma after_simps:
  "fst (after cs r) = fst r" "snd (after cs r) = cs @ snd r"
  by (simp_all add: after_def)

lemma effects_simps:
  "effects [] = []"
  "effects (c # cs) = (if is_query c then effects cs else c # effects cs)"
  "effects (xs @ ys) = effects xs @ effects ys"
  by (simp_all add: effects_def)

lemmas sample_defs = sampleEnv_def sampleConfig_def sampleUser_def sampleStaff_def dmChannel_def
  threadChannel_def sampleThread_def dmMessage_def staffMessage_def blockedEnv_def noThreadEnv_def
  replyEnv_def emptyStore_def sampleWorld_def dmMessage2_def botDmMessage_def closedThread_def
  logStore_def sampleMessages_def dmSchedule_def blockSchedule_def otherUser_def
  otherDmMessage_def mixedSchedule_def

lemmas js_defs = str_def trim_def isWhiteSpace_def oldContentOf_def unavailable_def

lemmas store_defs = exec_def store_env_def enqueue_def find_or_create_thread_for_user_def
  find_open_thread_by_user_def find_open_thread_by_channel_def new_thread_def
  add_chat_message_def is_blocked_def run_def dmTask_def dmMessageCreate_def after_def
  first_dm_def open_threads_of_def resolved_def

lemma find_open_None: "find_open_thread_by_user st uid = None \<longleftrightarrow> open_threads_of st uid = []"
  by (auto simp add: find_open_thread_by_user_def open_threads_of_def find_None_iff filter_empty_conv)

lemma find_append_new:
  assumes "find P xs = None" and "P x"
  shows "find P (xs @ [x]) = Some x"
  using assms by (induction xs) (auto split: if_splits)

lemma run_Cons: "run e (ev # evs) st = run e evs (step e ev st)"
  by (simp add: run_def)

lemma run_Nil: "run e [] st = st"
  by (simp add: run_def)

subsection \<open>One thread for concurrent first messages\<close>

text \<open>
  The moves of a task made back to back are the calls of the closure of main.js 64-67,
  carried out on the store as it stands.
\<close>

lemma uninterrupted_is_task:
  "uninterrupted w t st = exec w (snd (runTask (store_env e w st) t)) st"
proof -
  obtain m where t: "t = DmTask m" by (cases t)
  show ?thesis
    by (simp add: t uninterrupted_def exec_def dmTask_def store_env_def
        find_or_create_thread_for_user_def find_open_thread_by_user_def find_append_new
        new_thread_def add_chat_message_def split: option.splits)
qed

text \<open>
  Two tasks for the same new user that are not held back by the queue: when both lookups
  answer before either thread is persisted, each creates a thread, and the user ends
  with two OPEN threads. It is the one-at-a-time rule of the queue that excludes this.
\<close>

lemma tasks_outside_the_queue_race:
  "advance sampleWorld (Calling (DmTask dmMessage)) emptyStore
     = (Some (Creating (DmTask dmMessage) sampleUser), emptyStore)
   \<and> advance sampleWorld (Calling (DmTask dmMessage2)) emptyStore
     = (Some (Creating (DmTask dmMessage2) sampleUser), emptyStore)
   \<and> length (open_threads_of
        (snd (advance sampleWorld (Creating (DmTask dmMessage2) sampleUser)
           (snd (advance sampleWorld (Creating (DmTask dmMessage) sampleUser) emptyStore))))
        (u_id sampleUser)) = 2"
  by (simp add: sample_defs store_defs)

text \<open>What one step does on the store.\<close>

lemma step_dm:
  "step e (w, DirectMessage m) st =
     (if ch_private (msg_channel m) \<and> \<not> u_bot (msg_author m) \<and> msg_type m = 0
      then st\<lparr>suspended := suspended st @ [m]\<rparr> else st)"
  by (simp add: dmMessageCreate_def after_def)

lemma step_resume:
  assumes "i < length (suspended st)"
  shows "step e (w, Resume i) st =
     (if ch_private (msg_channel (suspended st ! i)) \<and> \<not> u_bot (msg_author (suspended st ! i))
         \<and> msg_type (suspended st ! i) = 0
         \<and> \<not> is_blocked st (u_id (msg_author (suspended st ! i)))
      then st\<lparr>suspended := take i (suspended st) @ drop (Suc i) (suspended st),
              queue := queue st @ [DmTask (suspended st ! i)]\<rparr>
      else st\<lparr>suspended := take i (suspended st) @ drop (Suc i) (suspended st)\<rparr>)"
  using assms
  by (simp add: dmMessageCreate_def store_env_def exec_def after_def enqueue_def is_blocked_def)

lemma mset_without_nth:
  assumes "i < length xs"
  shows "mset (take i xs @ drop (Suc i) xs) + {#xs ! i#} = mset xs"
proof -
  have "xs = take i xs @ xs ! i # drop (Suc i) xs"
    using assms by (rule id_take_nth_drop)
  then have "mset xs = mset (take i xs @ xs ! i # drop (Suc i) xs)"
    by simp
  then show ?thesis by simp
qed

lemma find_only:
  assumes "filter P xs = [x]"
  shows "find P xs = Some x"
  using assms by (induction xs) (auto split: if_splits simp add: find_None_iff filter_empty_conv)

lemma find_append_none:
  assumes "filter P xs = []"
  shows "find P (xs @ ys) = find P ys"
  using assms by (induction xs) (auto split: if_splits)

text \<open>A message that passes the guards and carries the id of a user who is no bot is his.\<close>

lemma mine_first_dm:
  fixes u :: user
  assumes "\<not> u_bot u" and "ch_private (msg_channel m)" and "\<not> u_bot (msg_author m)"
    and "msg_type m = 0"
  shows "mine u m \<longleftrightarrow> first_dm u m"
  using assms by (auto simp add: mine_def first_dm_def)

lemma first_dm_mine: "first_dm u m \<Longrightarrow> mine u m"
  by (simp add: first_dm_def mine_def)

lemma one_thread_invI:
  assumes "blocklist st = blocklist st0"
    and "\<forall>m\<in>#in_flight st. mine u m \<longrightarrow> first_dm u m"
    and "threads st = threads st0 @ new"
    and "filter (\<lambda>t. user_id t = u_id u) new = (case To of None \<Rightarrow> [] | Some T \<Rightarrow> [T])"
    and "chat_messages st = chat_messages st0 @ news"
    and "map resolved (filter (\<lambda>c. author_id c = u_id u) news)
             = map (\<lambda>m. (case To of None \<Rightarrow> 0 | Some T \<Rightarrow> thread_id T, Some (msg_id m))) ms"
    and "To = None \<longrightarrow> ms = []"
    and "mset ms + own u st = A"
    and "\<forall>T. To = Some T \<longrightarrow> status T = OPEN"
    and "case running st of
           None \<Rightarrow> True
         | Some (Calling t) \<Rightarrow> True
         | Some (Creating t v) \<Rightarrow>
             v = msg_author (task_msg t) \<and> (mine u (task_msg t) \<longrightarrow> To = None)
         | Some (Resolved t T') \<Rightarrow> mine u (task_msg t) \<longrightarrow> To = Some T'"
  shows "one_thread_inv u st0 A To st"
  unfolding one_thread_inv_def using assms by blast

text \<open>
  A step keeps it: the thread of the user stays the one it is, or is created when there
  was none.
\<close>

lemma one_thread_step:
  assumes inv: "one_thread_inv u st0 A To st" and ev: "dm_traffic ev"
    and nb: "\<not> u_bot u" and nbl: "\<not> is_blocked st0 (u_id u)"
    and none: "open_threads_of st0 (u_id u) = []"
  shows "\<exists>To'. one_thread_inv u st0 (A + arrivals u ev) To' (step e ev st)
           \<and> (To \<noteq> None \<longrightarrow> To' = To)"
proof -
  obtain w x where evx: "ev = (w, x)" by (cases ev)
  have bl: "blocklist st = blocklist st0"
    and fl: "\<forall>m\<in>#in_flight st. mine u m \<longrightarrow> first_dm u m"
    and op: "\<forall>T. To = Some T \<longrightarrow> status T = OPEN"
    and rn: "case running st of
           None \<Rightarrow> True
         | Some (Calling t) \<Rightarrow> True
         | Some (Creating t v) \<Rightarrow>
             v = msg_author (task_msg t) \<and> (mine u (task_msg t) \<longrightarrow> To = None)
         | Some (Resolved t T') \<Rightarrow> mine u (task_msg t) \<longrightarrow> To = Some T'"
    using inv by (simp_all add: one_thread_inv_def)
  obtain new news ms where th: "threads st = threads st0 @ new"
    and fn: "filter (\<lambda>t. user_id t = u_id u) new = (case To of None \<Rightarrow> [] | Some T \<Rightarrow> [T])"
    and cm: "chat_messages st = chat_messages st0 @ news"
    and rs: "map resolved (filter (\<lambda>c. author_id c = u_id u) news)
             = map (\<lambda>m. (case To of None \<Rightarrow> 0 | Some T \<Rightarrow> thread_id T, Some (msg_id m))) ms"
    and nm: "To = None \<longrightarrow> ms = []"
    and ct: "mset ms + own u st = A"
    using inv unfolding one_thread_inv_def by blast
  have nbl': "\<not> is_blocked st (u_id u)"
    using nbl bl by (simp add: is_blocked_def)
  have none0: "filter (\<lambda>t. user_id t = u_id u \<and> status t = OPEN) (threads st0) = []"
    using none by (simp add: open_threads_of_def)
  have keep: "\<And>st'. blocklist st' = blocklist st \<Longrightarrow> threads st' = threads st
      \<Longrightarrow> chat_messages st' = chat_messages st
      \<Longrightarrow> \<forall>m\<in>#in_flight st'. mine u m \<longrightarrow> first_dm u m
      \<Longrightarrow> own u st' = own u st + arrivals u ev
      \<Longrightarrow> (case running st' of
           None \<Rightarrow> True
         | Some (Calling t) \<Rightarrow> True
         | Some (Creating t v) \<Rightarrow>
             v = msg_author (task_msg t) \<and> (mine u (task_msg t) \<longrightarrow> To = None)
         | Some (Resolved t T') \<Rightarrow> mine u (task_msg t) \<longrightarrow> To = Some T')
      \<Longrightarrow> \<exists>To'. one_thread_inv u st0 (A + arrivals u ev) To' st' \<and> (To \<noteq> None \<longrightarrow> To' = To)"
  proof -
    fix st'
    assume a: "blocklist st' = blocklist st" "threads st' = threads st"
      "chat_messages st' = chat_messages st"
      "\<forall>m\<in>#in_flight st'. mine u m \<longrightarrow> first_dm u m"
      "own u st' = own u st + arrivals u ev"
      "case running st' of
           None \<Rightarrow> True
         | Some (Calling t) \<Rightarrow> True
         | Some (Creating t v) \<Rightarrow>
             v = msg_author (task_msg t) \<and> (mine u (task_msg t) \<longrightarrow> To = None)
         | Some (Resolved t T') \<Rightarrow> mine u (task_msg t) \<longrightarrow> To = Some T'"
    have "mset ms + own u st' = A + arrivals u ev"
      using ct a(5) by (simp add: add.assoc)
    then have "one_thread_inv u st0 (A + arrivals u ev) To st'"
      using a(1-4,6) bl th fn cm rs nm op
      by (intro one_thread_invI [where new = new and news = news and ms = ms]) simp_all
    then show "\<exists>To'. one_thread_inv u st0 (A + arrivals u ev) To' st' \<and> (To \<noteq> None \<longrightarrow> To' = To)"
      by blast
  qed
  show ?thesis
  proof (cases x)
    case (DirectMessage m)
    have ar: "arrivals u ev = (if first_dm u m then {#m#} else {#})"
      using evx DirectMessage by simp
    show ?thesis
    proof (cases "ch_private (msg_channel m) \<and> \<not> u_bot (msg_author m) \<and> msg_type m = 0")
      case True
      then have st: "step e ev st = st\<lparr>suspended := suspended st @ [m]\<rparr>"
        unfolding evx DirectMessage by (simp del: step.simps add: step_dm)
      have mf: "mine u m \<longleftrightarrow> first_dm u m"
        using True nb by (intro mine_first_dm) simp_all
      have fl': "in_flight (step e ev st) = in_flight st + {#m#}"
        by (simp add: st in_flight_def)
      show ?thesis
        using fl rn mf
        by (intro keep) (auto simp add: fl' ar own_def, simp_all add: st)
    next
      case False
      then have st: "step e ev st = st"
        unfolding evx DirectMessage by (simp del: step.simps add: step_dm)
      have "\<not> first_dm u m"
        using False nb by (auto simp add: first_dm_def)
      then show ?thesis
        using fl rn by (intro keep) (simp_all add: st ar)
    qed
  next
    case (Resume i)
    have ar: "arrivals u ev = {#}"
      using evx Resume by simp
    show ?thesis
    proof (cases "i < length (suspended st)")
      case False
      then have "step e ev st = st" using evx Resume by simp
      then show ?thesis
        using fl rn by (intro keep) (simp_all add: ar)
    next
      case True
      let ?m = "suspended st ! i"
      let ?dropped = "st\<lparr>suspended := take i (suspended st) @ drop (Suc i) (suspended st)\<rparr>"
      let ?queued = "st\<lparr>suspended := take i (suspended st) @ drop (Suc i) (suspended st),
              queue := queue st @ [DmTask ?m]\<rparr>"
      have inm: "?m \<in># in_flight st"
        using True by (simp add: in_flight_def)
      have q: "in_flight ?queued = in_flight st"
        using mset_without_nth [OF True] by (simp add: in_flight_def)
      have d: "in_flight ?dropped + {#?m#} = in_flight st"
        using mset_without_nth [OF True] by (simp add: in_flight_def)
      have sr: "step e ev st =
          (if ch_private (msg_channel ?m) \<and> \<not> u_bot (msg_author ?m) \<and> msg_type ?m = 0
              \<and> \<not> is_blocked st (u_id (msg_author ?m))
           then ?queued else ?dropped)"
        unfolding evx Resume by (rule step_resume [OF True])
      have sh: "step e ev st = ?queued \<or> step e ev st = ?dropped"
        unfolding sr by simp
      show ?thesis
      proof (cases "mine u ?m")
        case True
        then have fd: "first_dm u ?m" using fl inm by blast
        then have "msg_author ?m = u" by (simp add: first_dm_def)
        then have st: "step e ev st = ?queued"
          unfolding sr using fd nb nbl' by (simp add: first_dm_def)
        have "in_flight (step e ev st) = in_flight st"
          using q st by simp
        then show ?thesis
          using fl rn by (intro keep) (simp_all add: ar own_def, simp_all add: st)
      next
        case False
        have sub: "\<forall>m\<in>#in_flight (step e ev st). m \<in># in_flight st"
          using sh q d by (metis union_iff)
        have "own u (step e ev st) = own u st"
        proof -
          have "filter_mset (mine u) (in_flight ?dropped + {#?m#}) = own u st"
            using d by (simp add: own_def)
          then have "own u ?dropped = own u st"
            using False by (simp add: own_def)
          moreover have "own u ?queued = own u st"
            using q by (simp add: own_def)
          ultimately show ?thesis using sh by auto
        qed
        moreover have "blocklist (step e ev st) = blocklist st"
          "threads (step e ev st) = threads st"
          "chat_messages (step e ev st) = chat_messages st"
          "running (step e ev st) = running st"
          using sh by auto
        ultimately show ?thesis
          using fl rn sub by (intro keep) (simp_all add: ar)
      qed
    qed
  next
    case QueueRun
    have ar: "arrivals u ev = {#}"
      using evx QueueRun by simp
    show ?thesis
    proof (cases "running st")
      case None
      show ?thesis
      proof (cases "queue st")
        case Nil
        then have "step e ev st = st" using evx QueueRun None by simp
        then show ?thesis
          using fl rn by (intro keep) (simp_all add: ar)
      next
        case (Cons t ts)
        then have st: "step e ev st = st\<lparr>queue := ts, running := Some (Calling t)\<rparr>"
          using evx QueueRun None by simp
        have "in_flight (step e ev st) = in_flight st"
          using Cons None by (simp add: st in_flight_def)
        then show ?thesis
          using fl by (intro keep) (simp_all add: ar own_def, simp_all add: st)
      qed
    next
      case (Some p)
      show ?thesis
      proof (cases p)
        case (Calling t)
        obtain m where t: "t = DmTask m" by (cases t)
        have inm: "m \<in># in_flight st"
          using Some Calling t by (simp add: in_flight_def)
        let ?found = "find_open_thread_by_user st (u_id (msg_author m))"
        let ?p' = "case ?found of Some T \<Rightarrow> Resolved (DmTask m) T
                   | None \<Rightarrow> Creating (DmTask m) (msg_author m)"
        have st: "step e ev st = st\<lparr>running := Some ?p'\<rparr>"
          using evx QueueRun Some Calling t by (simp split: option.splits)
        have fl': "in_flight (step e ev st) = in_flight st"
          using Some Calling t by (simp add: st in_flight_def split: option.splits)
        have "mine u m \<Longrightarrow> ?found = To"
        proof -
          assume "mine u m"
          then have id: "u_id (msg_author m) = u_id u" by (simp add: mine_def)
          have "?found = find (\<lambda>t. user_id t = u_id u \<and> status t = OPEN) new"
            using none0 th id by (simp add: find_open_thread_by_user_def find_append_none)
          also have "\<dots> = To"
          proof (cases To)
            case None
            then have "filter (\<lambda>t. user_id t = u_id u \<and> status t = OPEN) new = []"
              using fn by (auto simp add: filter_empty_conv)
            then show ?thesis
              using None by (simp add: find_None_iff filter_empty_conv)
          next
            case (Some T)
            have "filter (\<lambda>t. user_id t = u_id u \<and> status t = OPEN) new
                = filter (\<lambda>t. status t = OPEN) (filter (\<lambda>t. user_id t = u_id u) new)"
              by (simp add: conj_commute)
            also have "\<dots> = [T]"
              using fn op Some by simp
            finally show ?thesis
              using Some by (simp add: find_only)
          qed
          finally show ?thesis .
        qed
        then have "case ?p' of
             Calling t \<Rightarrow> True
           | Creating t v \<Rightarrow>
               v = msg_author (task_msg t) \<and> (mine u (task_msg t) \<longrightarrow> To = None)
           | Resolved t T' \<Rightarrow> mine u (task_msg t) \<longrightarrow> To = Some T'"
          by (auto split: option.splits)
        then show ?thesis
          using fl by (intro keep) (simp_all add: ar own_def fl', simp_all add: st)
      next
        case (Creating t v)
        have v: "v = msg_author (task_msg t)"
          and vn: "mine u (task_msg t) \<longrightarrow> To = None"
          using rn Some Creating by simp_all
        let ?N = "new_thread w v st"
        have st: "step e ev st = st\<lparr>threads := threads st @ [?N], running := Some (Resolved t ?N)\<rparr>"
          using evx QueueRun Some Creating by simp
        have fl': "in_flight (step e ev st) = in_flight st"
          using Some Creating by (simp add: st in_flight_def)
        have nu: "user_id ?N = u_id v" and no: "status ?N = OPEN"
          by (simp_all add: new_thread_def)
        show ?thesis
        proof (cases "mine u (task_msg t)")
          case True
          then have To: "To = None" using vn by simp
          have uv: "u_id v = u_id u" using True v by (simp add: mine_def)
          have "one_thread_inv u st0 (A + arrivals u ev) (Some ?N) (step e ev st)"
          proof (rule one_thread_invI [where new = "new @ [?N]" and news = news and ms = "[]"])
            show "blocklist (step e ev st) = blocklist st0" using bl by (simp add: st)
            show "\<forall>m\<in>#in_flight (step e ev st). mine u m \<longrightarrow> first_dm u m"
              using fl fl' by simp
            show "threads (step e ev st) = threads st0 @ new @ [?N]"
              using th by (simp add: st)
            show "filter (\<lambda>t. user_id t = u_id u) (new @ [?N])
                = (case Some ?N of None \<Rightarrow> [] | Some T \<Rightarrow> [T])"
              using fn To nu uv by simp
            show "chat_messages (step e ev st) = chat_messages st0 @ news"
              using cm by (simp add: st)
            show "map resolved (filter (\<lambda>c. author_id c = u_id u) news)
                = map (\<lambda>m. (case Some ?N of None \<Rightarrow> 0 | Some T \<Rightarrow> thread_id T, Some (msg_id m))) []"
              using rs nm To by simp
            show "Some ?N = None \<longrightarrow> [] = ([]::message list)" by simp
            show "mset [] + own u (step e ev st) = A + arrivals u ev"
              using ct nm To fl' by (simp add: ar own_def)
            show "\<forall>T. Some ?N = Some T \<longrightarrow> status T = OPEN" using no by simp
            show "case running (step e ev st) of
                 None \<Rightarrow> True
               | Some (Calling t) \<Rightarrow> True
               | Some (Creating t v) \<Rightarrow>
                   v = msg_author (task_msg t) \<and> (mine u (task_msg t) \<longrightarrow> Some ?N = None)
               | Some (Resolved t T') \<Rightarrow> mine u (task_msg t) \<longrightarrow> Some ?N = Some T'"
              by (simp add: st)
          qed
          then show ?thesis using To by blast
        next
          case False
          then have uv: "u_id v \<noteq> u_id u" using v by (simp add: mine_def)
          have "one_thread_inv u st0 (A + arrivals u ev) To (step e ev st)"
          proof (rule one_thread_invI [where new = "new @ [?N]" and news = news and ms = ms])
            show "blocklist (step e ev st) = blocklist st0" using bl by (simp add: st)
            show "\<forall>m\<in>#in_flight (step e ev st). mine u m \<longrightarrow> first_dm u m"
              using fl fl' by simp
            show "threads (step e ev st) = threads st0 @ new @ [?N]"
              using th by (simp add: st)
            show "filter (\<lambda>t. user_id t = u_id u) (new @ [?N])
                = (case To of None \<Rightarrow> [] | Some T \<Rightarrow> [T])"
              using fn nu uv by simp
            show "chat_messages (step e ev st) = chat_messages st0 @ news"
              using cm by (simp add: st)
            show "map resolved (filter (\<lambda>c. author_id c = u_id u) news)
                = map (\<lambda>m. (case To of None \<Rightarrow> 0 | Some T \<Rightarrow> thread_id T, Some (msg_id m))) ms"
              using rs .
            show "To = None \<longrightarrow> ms = []" using nm .
            show "mset ms + own u (step e ev st) = A + arrivals u ev"
              using ct fl' by (simp add: ar own_def)
            show "\<forall>T. To = Some T \<longrightarrow> status T = OPEN" using op .
            show "case running (step e ev st) of
                 None \<Rightarrow> True
               | Some (Calling t) \<Rightarrow> True
               | Some (Creating t v) \<Rightarrow>
                   v = msg_author (task_msg t) \<and> (mine u (task_msg t) \<longrightarrow> To = None)
               | Some (Resolved t T') \<Rightarrow> mine u (task_msg t) \<longrightarrow> To = Some T'"
              using False by (simp add: st)
          qed
          then show ?thesis by blast
        qed
      next
        case (Resolved t T')
        obtain m where t: "t = DmTask m" by (cases t)
        have tm: "mine u m \<longrightarrow> To = Some T'"
          using rn Some Resolved t by simp
        let ?c = "\<lparr>cm_id = length (chat_messages st), cm_thread_id = thread_id T',
          external_message_id = Some (msg_id m), direction = FROM_USER,
          author_id = u_id (msg_author m), content = msg_content m,
          attachment_refs = msg_attachments m, cm_created_at = now w, deleted = False,
          anonymous = False\<rparr>"
        have st: "step e ev st = st\<lparr>chat_messages := chat_messages st @ [?c], running := None\<rparr>"
          using evx QueueRun Some Resolved t by (simp add: add_chat_message_def)
        have fl': "in_flight (step e ev st) + {#m#} = in_flight st"
          using Some Resolved t by (simp add: st in_flight_def)
        have sub: "\<forall>m\<in>#in_flight (step e ev st). mine u m \<longrightarrow> first_dm u m"
          using fl fl' by (metis union_iff)
        have ow: "own u (step e ev st) + (if mine u m then {#m#} else {#}) = own u st"
        proof -
          have "filter_mset (mine u) (in_flight (step e ev st) + {#m#}) = own u st"
            using fl' by (simp add: own_def)
          then show ?thesis by (auto simp add: own_def split: if_splits)
        qed
        show ?thesis
        proof (cases "mine u m")
          case True
          then have To: "To = Some T'" using tm by simp
          have au: "author_id ?c = u_id u" using True by (simp add: mine_def)
          have "one_thread_inv u st0 (A + arrivals u ev) To (step e ev st)"
          proof (rule one_thread_invI [where new = new and news = "news @ [?c]" and ms = "ms @ [m]"])
            show "blocklist (step e ev st) = blocklist st0" using bl by (simp add: st)
            show "\<forall>m\<in>#in_flight (step e ev st). mine u m \<longrightarrow> first_dm u m" using sub .
            show "threads (step e ev st) = threads st0 @ new" using th by (simp add: st)
            show "filter (\<lambda>t. user_id t = u_id u) new = (case To of None \<Rightarrow> [] | Some T \<Rightarrow> [T])"
              using fn .
            show "chat_messages (step e ev st) = chat_messages st0 @ news @ [?c]"
              using cm by (simp add: st)
            show "map resolved (filter (\<lambda>c. author_id c = u_id u) (news @ [?c]))
                = map (\<lambda>m. (case To of None \<Rightarrow> 0 | Some T \<Rightarrow> thread_id T, Some (msg_id m))) (ms @ [m])"
              using rs au To by (simp add: resolved_def)
            show "To = None \<longrightarrow> ms @ [m] = []" using To by simp
            show "mset (ms @ [m]) + own u (step e ev st) = A + arrivals u ev"
              using ct ow True by (auto simp add: ar)
            show "\<forall>T. To = Some T \<longrightarrow> status T = OPEN" using op .
            show "case running (step e ev st) of
                 None \<Rightarrow> True
               | Some (Calling t) \<Rightarrow> True
               | Some (Creating t v) \<Rightarrow>
                   v = msg_author (task_msg t) \<and> (mine u (task_msg t) \<longrightarrow> To = None)
               | Some (Resolved t T') \<Rightarrow> mine u (task_msg t) \<longrightarrow> To = Some T'"
              by (simp add: st)
          qed
          then show ?thesis by blast
        next
          case False
          then have au: "author_id ?c \<noteq> u_id u" by (simp add: mine_def)
          have "one_thread_inv u st0 (A + arrivals u ev) To (step e ev st)"
          proof (rule one_thread_invI [where new = new and news = "news @ [?c]" and ms = ms])
            show "blocklist (step e ev st) = blocklist st0" using bl by (simp add: st)
            show "\<forall>m\<in>#in_flight (step e ev st). mine u m \<longrightarrow> first_dm u m" using sub .
            show "threads (step e ev st) = threads st0 @ new" using th by (simp add: st)
            show "filter (\<lambda>t. user_id t = u_id u) new = (case To of None \<Rightarrow> [] | Some T \<Rightarrow> [T])"
              using fn .
            show "chat_messages (step e ev st) = chat_messages st0 @ news @ [?c]"
              using cm by (simp add: st)
            show "map resolved (filter (\<lambda>c. author_id c = u_id u) (news @ [?c]))
                = map (\<lambda>m. (case To of None \<Rightarrow> 0 | Some T \<Rightarrow> thread_id T, Some (msg_id m))) ms"
              using rs au by simp
            show "To = None \<longrightarrow> ms = []" using nm .
            show "mset ms + own u (step e ev st) = A + arrivals u ev"
              using ct ow False by (simp add: ar)
            show "\<forall>T. To = Some T \<longrightarrow> status T = OPEN" using op .
            show "case running (step e ev st) of
                 None \<Rightarrow> True
               | Some (Calling t) \<Rightarrow> True
               | Some (Creating t v) \<Rightarrow>
                   v = msg_author (task_msg t) \<and> (mine u (task_msg t) \<longrightarrow> To = None)
               | Some (Resolved t T') \<Rightarrow> mine u (task_msg t) \<longrightarrow> To = Some T'"
              by (simp add: st)
          qed
          then show ?thesis by blast
        qed
      qed
    qed
  next
    case (BlockCommand msg args)
    then show ?thesis using ev evx by simp
  qed
qed

lemma arrivals_sum: "(\<Sum>ev\<leftarrow>evs. arrivals u ev) = mset (filter (first_dm u) (dms_of evs))"
  by (induction evs rule: dms_of.induct) simp_all

lemma one_thread_run:
  assumes "one_thread_inv u st0 A To st" and "list_all dm_traffic evs"
    and "\<not> u_bot u" and "\<not> is_blocked st0 (u_id u)" and "open_threads_of st0 (u_id u) = []"
  shows "\<exists>To'. one_thread_inv u st0 (A + mset (filter (first_dm u) (dms_of evs))) To' (run e evs st)
           \<and> (To \<noteq> None \<longrightarrow> To' = To)"
  using assms(1,2)
proof (induction evs arbitrary: st A To)
  case Nil
  then show ?case by (auto simp add: run_Nil)
next
  case (Cons ev evs)
  have sum: "arrivals u ev + mset (filter (first_dm u) (dms_of evs))
      = mset (filter (first_dm u) (dms_of (ev # evs)))"
    using arrivals_sum [of u "ev # evs"] arrivals_sum [of u evs] by simp
  obtain To1 where s1: "one_thread_inv u st0 (A + arrivals u ev) To1 (step e ev st)"
    and k1: "To \<noteq> None \<longrightarrow> To1 = To"
    using one_thread_step [OF Cons.prems(1) _ assms(3-5), of ev e] Cons.prems(2) by auto
  obtain To2 where s2: "one_thread_inv u st0
        (A + arrivals u ev + mset (filter (first_dm u) (dms_of evs))) To2 (run e evs (step e ev st))"
    and k2: "To1 \<noteq> None \<longrightarrow> To2 = To1"
    using Cons.IH [OF s1] Cons.prems(2) by auto
  have "one_thread_inv u st0 (A + mset (filter (first_dm u) (dms_of (ev # evs)))) To2
      (run e (ev # evs) st)"
    using s2 sum by (simp add: run_Cons add.assoc)
  moreover have "To \<noteq> None \<longrightarrow> To2 = To"
    using k1 k2 by auto
  ultimately show ?case by blast
qed

lemma one_thread_start:
  assumes "queue st = []" and "suspended st = []" and "running st = None"
  shows "one_thread_inv u st {#} None st"
  using assms
  by (intro one_thread_invI [where new = "[]" and news = "[]" and ms = "[]"])
    (simp_all add: in_flight_def own_def)

lemma one_thread_open:
  assumes "one_thread_inv u st0 A To st" and "open_threads_of st0 (u_id u) = []"
  shows "open_threads_of st (u_id u) = (case To of None \<Rightarrow> [] | Some T \<Rightarrow> [T])"
proof -
  obtain new where th: "threads st = threads st0 @ new"
    and fn: "filter (\<lambda>t. user_id t = u_id u) new = (case To of None \<Rightarrow> [] | Some T \<Rightarrow> [T])"
    using assms(1) unfolding one_thread_inv_def by blast
  have op: "\<forall>T. To = Some T \<longrightarrow> status T = OPEN"
    using assms(1) by (simp add: one_thread_inv_def)
  have "filter (\<lambda>t. user_id t = u_id u \<and> status t = OPEN) new
      = filter (\<lambda>t. status t = OPEN) (filter (\<lambda>t. user_id t = u_id u) new)"
    by (simp add: conj_commute)
  also have "\<dots> = (case To of None \<Rightarrow> [] | Some T \<Rightarrow> [T])"
    using fn op by (simp split: option.splits)
  finally show ?thesis
    using assms(2) th by (simp add: open_threads_of_def)
qed

text \<open>At every moment of such a run the user has at most one OPEN thread.\<close>

lemma at_most_one_open_thread:
  fixes u :: user
  assumes "\<not> u_bot u" and "\<not> is_blocked st (u_id u)"
    and "open_threads_of st (u_id u) = []"
    and "queue st = []" and "suspended st = []" and "running st = None"
    and "list_all dm_traffic evs"
  shows "length (open_threads_of (run e evs st) (u_id u)) \<le> 1"
proof -
  obtain To where "one_thread_inv u st ({#} + mset (filter (first_dm u) (dms_of evs))) To (run e evs st)"
    using one_thread_run [OF one_thread_start [OF assms(4-6)] assms(7,1,2,3)] by blast
  then show ?thesis
    using one_thread_open [OF _ assms(3)] by (simp split: option.splits)
qed

text \<open>
  The worker ends every task: with no other event in between, as many moves as the work
  that is left empty the queue.
\<close>

lemma work_step:
  "work (step e (w, QueueRun) st) \<le> work st - 1"
proof (cases "running st")
  case None
  then show ?thesis by (cases "queue st") (simp_all add: work_def)
next
  case (Some p)
  show ?thesis
  proof (cases p)
    case (Calling t)
    obtain m where "t = DmTask m" by (cases t)
    then show ?thesis using Some Calling by (simp add: work_def split: option.splits)
  next
    case (Creating t u)
    then show ?thesis using Some by (simp add: work_def)
  next
    case (Resolved t T)
    obtain m where "t = DmTask m" by (cases t)
    then show ?thesis using Some Resolved by (simp add: work_def add_chat_message_def)
  qed
qed

lemma work_run:
  "work (run e (replicate n (w, QueueRun)) st) \<le> work st - n"
proof (induction n arbitrary: st)
  case 0
  then show ?case by (simp add: run_Nil)
next
  case (Suc n)
  have "work (run e (replicate n (w, QueueRun)) (step e (w, QueueRun) st))
      \<le> work (step e (w, QueueRun) st) - n"
    by (rule Suc.IH)
  also have "\<dots> \<le> work st - 1 - n"
    using work_step [of e w st] by simp
  finally show ?case
    by (simp add: run_Cons)
qed

lemma queue_drains:
  assumes "work st \<le> n"
  shows "queue (run e (replicate n (w, QueueRun)) st) = []
         \<and> running (run e (replicate n (w, QueueRun)) st) = None"
proof -
  have "work (run e (replicate n (w, QueueRun)) st) = 0"
    using work_run [of e n w st] assms by simp
  then show ?thesis
    by (auto simp add: work_def split: option.splits progress.splits)
qed

text \<open>
  Every suspended handler runs on when its lookup answers, and the moves of the worker
  leave the suspended handlers alone: any run can be continued until nothing is under way.
\<close>

lemma run_append: "run e (xs @ ys) st = run e ys (run e xs st)"
  by (simp add: run_def)

lemma suspended_resume:
  "length (suspended (step e (w, Resume 0) st)) = length (suspended st) - 1"
proof (cases "suspended st")
  case Nil
  then show ?thesis by simp
next
  case (Cons m ms)
  then have "0 < length (suspended st)" by simp
  then show ?thesis
    using Cons by (simp del: step.simps add: step_resume)
qed

lemma lookups_answer:
  assumes "length (suspended st) \<le> n"
  shows "suspended (run e (replicate n (w, Resume 0)) st) = []"
proof -
  have "length (suspended (run e (replicate n (w, Resume 0)) st)) = length (suspended st) - n"
    by (induction n arbitrary: st)
      (simp_all add: run_Nil run_Cons suspended_resume del: step.simps)
  then show ?thesis using assms by simp
qed

lemma suspended_queue_run: "suspended (step e (w, QueueRun) st) = suspended st"
proof (cases "running st")
  case None
  then show ?thesis by (cases "queue st") simp_all
next
  case (Some p)
  show ?thesis
  proof (cases p)
    case (Calling t)
    obtain m where "t = DmTask m" by (cases t)
    then show ?thesis using Some Calling by (simp split: option.splits)
  next
    case (Creating t u)
    then show ?thesis using Some by simp
  next
    case (Resolved t T)
    obtain m where "t = DmTask m" by (cases t)
    then show ?thesis using Some Resolved by (simp add: add_chat_message_def)
  qed
qed

lemma suspended_queue_runs:
  "suspended (run e (replicate k (w, QueueRun)) st) = suspended st"
  by (induction k arbitrary: st)
    (simp_all add: run_Nil run_Cons suspended_queue_run del: step.simps)

lemma run_can_complete:
  assumes "length (suspended st) \<le> n"
    and "work (run e (replicate n (w, Resume 0)) st) \<le> k"
  shows "in_flight (run e (replicate n (w, Resume 0) @ replicate k (w, QueueRun)) st) = {#}"
proof -
  let ?st = "run e (replicate n (w, Resume 0)) st"
  have "suspended (run e (replicate k (w, QueueRun)) ?st) = []"
    using lookups_answer [OF assms(1)] by (simp add: suspended_queue_runs)
  then show ?thesis
    using queue_drains [OF assms(2)] by (simp add: run_append in_flight_def)
qed



text \<open>
  The order in which the messages are logged is the order in which the lookups answered,
  not the order of arrival: here the second message is logged first.
\<close>

lemma logged_in_order_of_answers:
  "dms_of dmSchedule = [dmMessage, dmMessage2]
   \<and> map resolved (chat_messages (run sampleEnv dmSchedule emptyStore))
       = [(0, Some (str ''501'')), (0, Some (str ''500''))]"
  by (simp add: sample_defs store_defs js_defs)

subsection \<open>Edits\<close>

text \<open>
  Claim C2. An edit in a private channel whose author has no OPEN thread issues no call
  that acts: no system message is posted and nothing is stored. The handler returns when the
  author is a bot or blocked or the trimmed contents agree; otherwise the lookup gives null,
  and the handler ends with a TypeError at the call of the method on it, before anything is
  posted.
\<close>

theorem dm_edit_without_open_thread:
  assumes "ch_private (msg_channel msg)"
    and "findOpenThreadByUserId e (u_id (msg_author msg)) = None"
  shows "effects (snd (messageUpdate e msg oldMessage)) = []
         \<and> PostSystemMessage t s \<notin> set (snd (messageUpdate e msg oldMessage))
         \<and> fst (messageUpdate e msg oldMessage) =
             (if u_bot (msg_author msg) \<or> isBlocked e (u_id (msg_author msg))
                 \<or> trim (msg_content msg) = trim (oldContentOf oldMessage)
              then Returned else Threw TypeError)"
  using assms by (simp add: messageUpdate_def after_def effects_simps Let_def)

theorem dm_edit_without_open_thread_witness:
  "ch_private (msg_channel dmMessage)
   \<and> findOpenThreadByUserId noThreadEnv (u_id (msg_author dmMessage)) = None
   \<and> effects (snd (messageUpdate noThreadEnv dmMessage \<lparr>old_content = None\<rparr>)) = []
   \<and> fst (messageUpdate noThreadEnv dmMessage \<lparr>old_content = None\<rparr>) = Threw TypeError"
  using dm_edit_without_open_thread
    [where msg = dmMessage and e = noThreadEnv and oldMessage = "\<lparr>old_content = None\<rparr>"]
  by (simp add: sample_defs js_defs)

text \<open>
  Claim C3. An edit whose trimmed new content equals the trimmed old content (the
  placeholder standing for an old content that is null) makes the handler return having
  issued at most the blocklist lookup: nothing is posted and nothing stored is updated.
\<close>

theorem edit_unchanged_no_action:
  assumes "trim (msg_content msg) = trim (oldContentOf oldMessage)"
  shows "messageUpdate e msg oldMessage =
           (Returned, if u_bot (msg_author msg) then [] else [IsBlocked (u_id (msg_author msg))])
         \<and> effects (snd (messageUpdate e msg oldMessage)) = []"
  using assms by (simp add: messageUpdate_def after_def effects_simps)

theorem edit_unchanged_no_action_witness:
  "trim (msg_content staffMessage) = trim (oldContentOf \<lparr>old_content = Some (str ''hi'')\<rparr>)
   \<and> messageUpdate sampleEnv staffMessage \<lparr>old_content = Some (str ''hi'')\<rparr>
       = (Returned, [IsBlocked (str ''9'')])"
  using edit_unchanged_no_action [of staffMessage "\<lparr>old_content = Some (str ''hi'')\<rparr>" sampleEnv]
  by (simp add: sample_defs js_defs)

subsection \<open>Messages of moderators and of users\<close>

text \<open>
  Claim C4. A message on the inbox server by a staff member who is not a bot, starting with
  neither command prefix, in a channel for which the thread lookup finds a thread: with
  \<^verbatim>\<open>alwaysReply\<close> set, the handler captures the attachments if there are any, replies to the
  user with the trimmed content and the attachments, anonymous exactly when
  \<^verbatim>\<open>alwaysReplyAnon\<close> is true, and deletes the message; otherwise it saves the message as
  chat of the thread and issues nothing towards the user.
\<close>

theorem staff_message_relay_or_store:
  assumes "messageIsOnInboxServer e msg" and "isStaff e (msg_member msg)"
    and "\<not> u_bot (msg_author msg)"
    and "\<not> prefix (cfg_prefix (config e)) (msg_content msg)"
    and "\<not> prefix (cfg_snippetPrefix (config e)) (msg_content msg)"
    and "findByChannelId e (ch_id (msg_channel msg)) = Some t"
  shows "fst (staffMessageCreate e msg) = Returned
         \<and> effects (snd (staffMessageCreate e msg)) =
             (if cfg_alwaysReply (config e) then
                (if msg_attachments msg \<noteq> [] then [SaveAttachmentsInMessage msg] else [])
                @ [ReplyToUser t (msg_member msg) (trim (msg_content msg)) (msg_attachments msg)
                     (cfg_alwaysReplyAnon (config e) = Some True),
                   DeleteMessage msg]
              else [SaveChatMessage t msg])"
  using assms by (auto simp add: staffMessageCreate_def after_def effects_simps split: option.splits)

theorem staff_message_relay_or_store_witness:
  "effects (snd (staffMessageCreate sampleEnv staffMessage)) = [SaveChatMessage sampleThread staffMessage]
   \<and> effects (snd (staffMessageCreate replyEnv staffMessage)) =
       [SaveAttachmentsInMessage staffMessage,
        ReplyToUser sampleThread (Some sampleStaff) (str ''hi'') [str ''http://a/b.png''] False,
        DeleteMessage staffMessage]"
  using staff_message_relay_or_store [of sampleEnv staffMessage sampleThread]
    staff_message_relay_or_store [of replyEnv staffMessage sampleThread]
  by (simp add: sample_defs js_defs)


text \<open>
  Claim C5. For a message in a private channel, the handler adds the task to the queue
  exactly when the author is not blocked and not a bot and the message has type 0; in every
  other case it returns having issued no call that acts. The task finds or creates the thread
  of the author and hands the message to it as the reply of the user.
\<close>

theorem dm_enqueue_iff:
  assumes "ch_private (msg_channel msg)"
  shows "effects (snd (dmMessageCreate e msg)) =
           (if \<not> isBlocked e (u_id (msg_author msg)) \<and> \<not> u_bot (msg_author msg) \<and> msg_type msg = 0
            then [QueueAdd (DmTask msg)] else [])
         \<and> fst (dmMessageCreate e msg) = Returned
         \<and> runTask e (DmTask msg) =
             (Returned, [FindOrCreateThreadForUser (msg_author msg),
                         ReceiveUserReply (findOrCreateThreadForUser e (msg_author msg)) msg])"
  using assms by (simp add: dmMessageCreate_def after_def effects_simps dmTask_def)

theorem dm_enqueue_iff_witness:
  "ch_private (msg_channel dmMessage)
   \<and> effects (snd (dmMessageCreate sampleEnv dmMessage)) = [QueueAdd (DmTask dmMessage)]
   \<and> effects (snd (dmMessageCreate blockedEnv (dmMessage\<lparr>msg_author := \<lparr>u_id = str ''9'', u_bot = False\<rparr>\<rparr>))) = []
   \<and> effects (snd (dmMessageCreate sampleEnv (dmMessage\<lparr>msg_type := 6\<rparr>))) = []"
  using dm_enqueue_iff [of dmMessage sampleEnv]
    dm_enqueue_iff [of "dmMessage\<lparr>msg_author := \<lparr>u_id = str ''9'', u_bot = False\<rparr>\<rparr>" blockedEnv]
    dm_enqueue_iff [of "dmMessage\<lparr>msg_type := 6\<rparr>" sampleEnv]
  by (simp add: sample_defs js_defs)

subsection \<open>Deletions\<close>

text \<open>
  Claim C6. The delete handler always returns. For a message on the inbox server whose author
  is not a bot and is staff, it looks up the OPEN thread of the channel and, when there is
  one, issues the deletion of the chat message of that message id and nothing else; in
  every other case it issues no call that acts. The deletion, as the specification gives it,
  keeps every row and every content, sets the deleted flag on the rows of the thread that log
  that message, and leaves threads, queue and blocklist alone.
\<close>

theorem staff_delete_soft_deletes:
  "fst (messageDelete e msg) = Returned
   \<and> snd (messageDelete e msg) =
       (if \<not> u_bot (msg_author msg) \<and> messageIsOnInboxServer e msg \<and> isStaff e (msg_member msg)
        then FindOpenThreadByChannelId (ch_id (msg_channel msg))
             # (case findOpenThreadByChannelId e (ch_id (msg_channel msg)) of
                  None \<Rightarrow> []
                | Some t \<Rightarrow> [DeleteChatMessage t (msg_id msg)])
        else [])
   \<and> map content (chat_messages (apply_call w (DeleteChatMessage t mid) st))
       = map content (chat_messages st)
   \<and> map deleted (chat_messages (apply_call w (DeleteChatMessage t mid) st))
       = map (\<lambda>m. deleted m \<or> (cm_thread_id m = thread_id t \<and> external_message_id m = Some mid))
           (chat_messages st)
   \<and> map cm_id (chat_messages (apply_call w (DeleteChatMessage t mid) st))
       = map cm_id (chat_messages st)
   \<and> threads (apply_call w (DeleteChatMessage t mid) st) = threads st
   \<and> queue (apply_call w (DeleteChatMessage t mid) st) = queue st
   \<and> blocklist (apply_call w (DeleteChatMessage t mid) st) = blocklist st"
proof -
  have "fst (messageDelete e msg) = Returned"
    by (simp add: messageDelete_def after_def split: option.splits)
  moreover have "snd (messageDelete e msg) =
       (if \<not> u_bot (msg_author msg) \<and> messageIsOnInboxServer e msg \<and> isStaff e (msg_member msg)
        then FindOpenThreadByChannelId (ch_id (msg_channel msg))
             # (case findOpenThreadByChannelId e (ch_id (msg_channel msg)) of
                  None \<Rightarrow> []
                | Some t \<Rightarrow> [DeleteChatMessage t (msg_id msg)])
        else [])"
    by (simp add: messageDelete_def after_def split: option.splits)
  moreover have "map deleted (chat_messages (apply_call w (DeleteChatMessage t mid) st))
       = map (\<lambda>m. deleted m \<or> (cm_thread_id m = thread_id t \<and> external_message_id m = Some mid))
           (chat_messages st)"
    by (auto simp add: delete_chat_message_def)
  ultimately show ?thesis
    by (simp add: delete_chat_message_def)
qed

theorem staff_delete_soft_deletes_witness:
  "snd (messageDelete sampleEnv staffMessage)
     = [FindOpenThreadByChannelId (str ''80''), DeleteChatMessage sampleThread (str ''600'')]
   \<and> map deleted (chat_messages (exec sampleWorld (snd (messageDelete sampleEnv staffMessage))
         (emptyStore\<lparr>chat_messages := sampleMessages\<rparr>))) = [True, False]
   \<and> map content (chat_messages (exec sampleWorld (snd (messageDelete sampleEnv staffMessage))
         (emptyStore\<lparr>chat_messages := sampleMessages\<rparr>))) = [str ''hi'', str ''ho'']
   \<and> snd (messageDelete sampleEnv dmMessage) = []"
  using staff_delete_soft_deletes [of sampleEnv staffMessage sampleWorld sampleThread "str ''600''"
      "emptyStore\<lparr>chat_messages := sampleMessages\<rparr>"]
    staff_delete_soft_deletes [of sampleEnv dmMessage sampleWorld sampleThread "str ''600''" emptyStore]
  by (simp add: sample_defs js_defs exec_def)

subsection \<open>The listing of logs\<close>

lemma split_no_sep: "sep \<notin> set s \<Longrightarrow> split sep s = [s]"
  by (induction s) auto

lemma split_append_sep: "sep \<notin> set a \<Longrightarrow> split sep (a @ sep # rest) = a # split sep rest"
  by (induction a) auto

lemma split_join:
  assumes "xs \<noteq> []" and "\<forall>x\<in>set xs. sep \<notin> set x"
  shows "split sep (join [sep] xs) = xs"
  using assms
proof (induction xs)
  case Nil
  then show ?case by simp
next
  case (Cons x xs)
  show ?case
  proof (cases xs)
    case Nil
    then show ?thesis using Cons.prems by (simp add: split_no_sep)
  next
    case (Cons y ys)
    then have "split sep (join [sep] xs) = xs"
      using Cons.IH Cons.prems by simp
    then show ?thesis
      using Cons Cons.prems split_append_sep [of sep x "join [sep] (y # ys)"] by simp
  qed
qed

lemma logs_lines:
  assumes "10 \<notin> set userId" and "\<forall>l\<in>set threadLines. 10 \<notin> set l"
  shows "split 10 (logsMessage userId threadLines) =
           (str ''**Log files for <@'' @ userId @ str ''>:**'')
           # (if threadLines = [] then [[]] else threadLines)"
proof -
  have "10 \<notin> set (str ''**Log files for <@'' @ userId @ str ''>:**'')"
    using assms(1) by (simp add: str_def)
  then have "split 10 (logsMessage userId threadLines) =
      (str ''**Log files for <@'' @ userId @ str ''>:**'') # split 10 (join [10] threadLines)"
    using split_append_sep [of 10 "str ''**Log files for <@'' @ userId @ str ''>:**''"
        "join [10] threadLines"]
    by (simp add: logsMessage_def)
  moreover have "split 10 (join [10] threadLines) = (if threadLines = [] then [[]] else threadLines)"
    using assms(2) by (simp add: split_join)
  ultimately show ?thesis by simp
qed


text \<open>
  Claim C7. The closed threads of a user come in ascending order of creation (the lookup of the
  specification), and the logs command reverses them before it formats them: the log
  urls are fetched and the lines are built newest first, under the heading, and sent in
  the chunks that \<^verbatim>\<open>utils.chunk\<close> makes of the lines.
\<close>

theorem logs_newest_first:
  assumes "e' = store_env e w st"
    and "closed = get_closed_threads_by_user st userId"
  shows "sorted (map created_at closed)
         \<and> set closed = {t \<in> set (threads st). user_id t = userId \<and> status t = CLOSED}
         \<and> sorted (rev (map created_at (rev closed)))
         \<and> getLogs e' msg userId =
             (Returned,
              [GetClosedThreadsByUserId userId]
              @ map GetLogUrl (rev closed)
              @ map (\<lambda>ls. CreateMessage (msg_channel msg) (join [10] ls))
                  (chunk e' (split 10 (logsMessage userId (map (threadLine e') (rev closed)))) 15))
         \<and> logsCommand e' msg [] (Some t) = getLogs e' msg (user_id t)
         \<and> logsCommand e' msg (a # args) thread =
             (case getUserMention e' (join (str '' '') (a # args)) of
                None \<Rightarrow> (Returned, [])
              | Some uid \<Rightarrow> if uid = [] then (Returned, []) else getLogs e' msg uid)"
  using assms
  by (auto simp add: get_closed_threads_by_user_def getLogs_def logsCommand_def store_env_def
      Let_def rev_map)


theorem logs_newest_first_witness:
  "map created_at (get_closed_threads_by_user logStore (str ''7'')) = [200, 300]
   \<and> snd (getLogs (store_env sampleEnv sampleWorld logStore) staffMessage (str ''7'')) =
       [GetClosedThreadsByUserId (str ''7''),
        GetLogUrl (closedThread 0 300), GetLogUrl (closedThread 2 200),
        CreateMessage threadChannel
          (str ''**Log files for <@7>:**'' @ [10]
           @ str ''`Jan 1st at 00:00 UTC`: <http://logs/1>'' @ [10]
           @ str ''`Jan 1st at 00:00 UTC`: <http://logs/1>'')]"
  using logs_newest_first [of "store_env sampleEnv sampleWorld logStore" sampleEnv sampleWorld
      logStore "get_closed_threads_by_user logStore (str ''7'')" "str ''7''" staffMessage]
  by (simp add: sample_defs js_defs get_closed_threads_by_user_def
      store_env_def logsMessage_def threadLine_def)

subsection \<open>Commands with a malformed argument\<close>

text \<open>
  Claim C8. When the argument list is not empty and \<^verbatim>\<open>getUserMention\<close> finds no user
  in the joined arguments, the block, unblock and logs commands return without any call:
  nothing is blocked or unblocked and no message is sent, whether or not the invoking
  channel has a thread.
\<close>

theorem malformed_argument_silent:
  assumes "args \<noteq> []" and "getUserMention e (join (str '' '') args) = None"
  shows "blockCommand e msg args thread = (Returned, [])
         \<and> unblockCommand e msg args thread = (Returned, [])
         \<and> logsCommand e msg args thread = (Returned, [])"
  using assms by (simp add: blockCommand_def unblockCommand_def logsCommand_def)

theorem malformed_argument_silent_witness:
  "[str ''abc''] \<noteq> [] \<and> getUserMention sampleEnv (join (str '' '') [str ''abc'']) = None
   \<and> blockCommand sampleEnv staffMessage [str ''abc''] (Some sampleThread) = (Returned, [])
   \<and> unblockCommand sampleEnv staffMessage [str ''abc''] (Some sampleThread) = (Returned, [])
   \<and> logsCommand sampleEnv staffMessage [str ''abc''] (Some sampleThread) = (Returned, [])"
  using malformed_argument_silent [of "[str ''abc'']" sampleEnv staffMessage "Some sampleThread"]
  by (simp add: sample_defs js_defs)

subsection \<open>The blocklist and the queue\<close>

text \<open>
  Claim C9, as amended. The handler of direct messages consults the blocklist at most once:
  exactly once when the message is in a private channel, its author is not a bot and its
  type is 0, and not at all otherwise; the lookup comes before the task is added. The
  queued task consults it never, and what the task does is the same whatever the
  blocklist says when it runs.
\<close>

theorem blocklist_checked_at_receipt_only:
  "snd (dmMessageCreate e msg) =
     (if ch_private (msg_channel msg) \<and> \<not> u_bot (msg_author msg) \<and> msg_type msg = 0
      then IsBlocked (u_id (msg_author msg))
           # (if isBlocked e (u_id (msg_author msg)) then [] else [QueueAdd (DmTask msg)])
      else [])
   \<and> length (filter is_blocklist_check (snd (dmMessageCreate e msg))) =
       (if ch_private (msg_channel msg) \<and> \<not> u_bot (msg_author msg) \<and> msg_type msg = 0
        then 1 else 0)
   \<and> filter is_blocklist_check (snd (runTask e (DmTask msg))) = []
   \<and> runTask (e\<lparr>isBlocked := b\<rparr>) (DmTask msg) = runTask e (DmTask msg)"
  by (simp add: dmMessageCreate_def after_def dmTask_def)

text \<open>
  Claim C9 as stated fails on a direct message of a bot: the handler returns before the
  lookup, so the blocklist is consulted zero times for that event.
\<close>

theorem blocklist_check_skipped_for_bot_dm:
  "ch_private (msg_channel botDmMessage)
   \<and> length (filter is_blocklist_check (snd (dmMessageCreate sampleEnv botDmMessage))) \<noteq> 1"
  by (simp add: dmMessageCreate_def sample_defs)

text \<open>On the store: a turn of the worker does the same on any blocklist.\<close>

lemma queue_run_ignores_blocklist:
  "step e (w, QueueRun) (st\<lparr>blocklist := bl\<rparr>) = (step e (w, QueueRun) st)\<lparr>blocklist := bl\<rparr>"
proof (cases "running st")
  case None
  then show ?thesis by (cases "queue st") simp_all
next
  case (Some p)
  show ?thesis
  proof (cases p)
    case (Calling t)
    obtain m where "t = DmTask m" by (cases t)
    then show ?thesis
      using Some Calling by (simp add: find_open_thread_by_user_def split: option.splits)
  next
    case (Creating t u)
    then show ?thesis using Some by (simp add: new_thread_def)
  next
    case (Resolved t T)
    obtain m where "t = DmTask m" by (cases t)
    then show ?thesis using Some Resolved by (simp add: add_chat_message_def)
  qed
qed

theorem blocklist_checked_at_receipt_only_witness:
  "snd (dmMessageCreate sampleEnv dmMessage) = [IsBlocked (str ''7''), QueueAdd (DmTask dmMessage)]
   \<and> snd (runTask blockedEnv (DmTask dmMessage)) = snd (runTask sampleEnv (DmTask dmMessage))
   \<and> is_blocked (run sampleEnv blockSchedule emptyStore) (str ''7'')
   \<and> map resolved (chat_messages (run sampleEnv blockSchedule emptyStore)) = [(0, Some (str ''500''))]"
  using blocklist_checked_at_receipt_only [of sampleEnv dmMessage "\<lambda>u. u = str ''9''"]
  by (simp add: sample_defs js_defs store_defs blockCommand_def block_def
      block_user_def)

text \<open>
  Claim C10. An edit by a blocked author makes the handler return after the blocklist
  lookup (before it, when the author is a bot): no call that acts is issued, on the side of
  the staff channel as on the private side, and a stored chat message is never updated.
\<close>

theorem edit_blocked_author_ignored:
  assumes "isBlocked e (u_id (msg_author msg))"
  shows "messageUpdate e msg oldMessage =
           (Returned, if u_bot (msg_author msg) then [] else [IsBlocked (u_id (msg_author msg))])
         \<and> effects (snd (messageUpdate e msg oldMessage)) = []
         \<and> UpdateChatMessage t m \<notin> set (snd (messageUpdate e msg oldMessage))"
  using assms by (simp add: messageUpdate_def after_def effects_simps)

theorem edit_blocked_author_ignored_witness:
  "isBlocked blockedEnv (u_id (msg_author staffMessage))
   \<and> messageUpdate blockedEnv staffMessage \<lparr>old_content = Some (str ''ho'')\<rparr>
       = (Returned, [IsBlocked (str ''9'')])
   \<and> messageUpdate sampleEnv staffMessage \<lparr>old_content = Some (str ''ho'')\<rparr>
       = (Returned, [IsBlocked (str ''9''), FindOpenThreadByChannelId (str ''80''),
                     UpdateChatMessage sampleThread staffMessage])"
  using edit_blocked_author_ignored [of blockedEnv staffMessage "\<lparr>old_content = Some (str ''ho'')\<rparr>"]
  by (simp add: sample_defs js_defs messageUpdate_def after_def)


end
